theory Spec2Isabelle
  imports Complex_Main "HOL-Library.AList" "HOL-Library.Char_ord" "HOL-Library.List_Lexorder"
begin

section \<open>Python values and exceptions\<close>

text \<open>
  The result payloads of the vision tools are Python dicts with string keys and mixed
  values. A dict is an association list in insertion order; \<open>AList.update\<close> is the
  assignment \<open>d[k] = v\<close> (in place when the key exists, appended otherwise) and
  \<open>AList.delete\<close> is \<open>del d[k]\<close>. Python floats are idealised as reals.
\<close>

datatype pyval =
    VNone
  | VBool bool
  | VInt int
  | VFloat real
  | VStr string
  | VList "pyval list"
  | VDict "(string \<times> pyval) list"

type_synonym pydict = "(string \<times> pyval) list"

text \<open>Python truthiness, as used by \<open>if cached:\<close> and \<open>if result.get("success"):\<close>.\<close>

fun truthy :: "pyval \<Rightarrow> bool" where
  "truthy VNone = False"
| "truthy (VBool b) = b"
| "truthy (VInt i) = (i \<noteq> 0)"
| "truthy (VFloat x) = (x \<noteq> 0)"
| "truthy (VStr s) = (s \<noteq> [])"
| "truthy (VList xs) = (xs \<noteq> [])"
| "truthy (VDict d) = (d \<noteq> [])"

text \<open>\<open>d.get(k)\<close> and \<open>d.get(k, default)\<close>.\<close>

definition dict_get :: "pydict \<Rightarrow> string \<Rightarrow> pyval" where
  "dict_get d k = (case map_of d k of None \<Rightarrow> VNone | Some v \<Rightarrow> v)"

definition dict_get_default :: "pydict \<Rightarrow> string \<Rightarrow> pyval \<Rightarrow> pyval" where
  "dict_get_default d k dflt = (case map_of d k of None \<Rightarrow> dflt | Some v \<Rightarrow> v)"

text \<open>
  The exceptions the modelled code can raise. \<open>TimeoutException\<close> and \<open>NetworkError\<close>
  stand for the httpx classes and their subclasses; \<open>HTTPStatusError\<close> carries the
  response's status code and text; \<open>OtherException\<close> is any other \<open>Exception\<close>.
\<close>

datatype exn =
    ValueError string
  | TimeoutException string
  | NetworkError string
  | HTTPStatusError int string
  | OtherException string

section \<open>cache.py: ImageCache\<close>

text \<open>
  \<open>_make_key\<close> formats the coordinates with six decimals, appends the repr of the
  keyword parameters sorted by name, and hashes the string with MD5. The float
  formatting, the repr and the hash are library functions, taken as parameters.
\<close>

record key_env =
  fmt6f :: "real \<Rightarrow> string"
  repr_items :: "pydict \<Rightarrow> string"
  md5_hexdigest :: "string \<Rightarrow> string"

definition make_key :: "key_env \<Rightarrow> real \<Rightarrow> real \<Rightarrow> pydict \<Rightarrow> string" where
  "make_key E lat lng params =
     md5_hexdigest E (fmt6f E lat @ '':'' @ fmt6f E lng @ '':'' @ repr_items E (sort_key fst params))"

text \<open>
  The instance state. \<open>cache\<close> is the dict \<open>_cache\<close>: key to (timestamp, value), in
  insertion order.
\<close>

record 'v image_cache =
  cache :: "(string \<times> (real \<times> 'v)) list"
  ttl :: int
  max_size :: int
  hits :: int
  misses :: int
  name :: string

definition ImageCache_init :: "int \<Rightarrow> int \<Rightarrow> 'v image_cache" where
  "ImageCache_init ttl_seconds max_sz =
     \<lparr>cache = [], ttl = ttl_seconds, max_size = max_sz, hits = 0, misses = 0, name = ''unnamed''\<rparr>"

definition set_name :: "'v image_cache \<Rightarrow> string \<Rightarrow> 'v image_cache" where
  "set_name c n = c\<lparr>name := n\<rparr>"

text \<open>
  \<open>get\<close>: \<open>now\<close> is the reading of \<open>time.time()\<close>. The result is the returned value
  (\<open>None\<close> for a miss) and the updated instance.
\<close>

definition ImageCache_get ::
  "key_env \<Rightarrow> real \<Rightarrow> 'v image_cache \<Rightarrow> real \<Rightarrow> real \<Rightarrow> pydict \<Rightarrow> 'v option \<times> 'v image_cache" where
  "ImageCache_get E now c lat lng params =
     (let key = make_key E lat lng params in
      case map_of (cache c) key of
        Some (timestamp, v) \<Rightarrow>
          if now - timestamp < real_of_int (ttl c)
          then (Some v, c\<lparr>hits := hits c + 1\<rparr>)
          else (None, c\<lparr>cache := AList.delete key (cache c), misses := misses c + 1\<rparr>)
      | None \<Rightarrow> (None, c\<lparr>misses := misses c + 1\<rparr>))"

text \<open>
  Python's \<open>min(iterable, key=f)\<close>: the first element with the least key; it raises
  \<open>ValueError\<close> on an empty iterable.
\<close>

fun min_from :: "('a \<Rightarrow> real) \<Rightarrow> 'a \<Rightarrow> 'a list \<Rightarrow> 'a" where
  "min_from f best [] = best"
| "min_from f best (x # xs) = min_from f (if f x < f best then x else best) xs"

definition py_min :: "('a \<Rightarrow> real) \<Rightarrow> 'a list \<Rightarrow> exn + 'a" where
  "py_min f xs =
     (case xs of
        [] \<Rightarrow> Inl (ValueError ''min() arg is an empty sequence'')
      | x # rest \<Rightarrow> Inr (min_from f x rest))"

text \<open>
  \<open>oldest_key = min(self._cache, key=lambda k: self._cache[k][0])\<close>: the dict is
  iterated in insertion order and each key is ranked by its own timestamp.
\<close>

definition oldest_key :: "(string \<times> (real \<times> 'v)) list \<Rightarrow> exn + string" where
  "oldest_key entries =
     (case py_min (\<lambda>e. fst (snd e)) entries of Inl e \<Rightarrow> Inl e | Inr e \<Rightarrow> Inr (fst e))"

text \<open>The eviction step of \<open>set\<close>: the body of \<open>if len(self._cache) >= self._max_size\<close>.\<close>

definition evict_if_full :: "'v image_cache \<Rightarrow> exn + (string \<times> (real \<times> 'v)) list" where
  "evict_if_full c =
     (if int (length (cache c)) \<ge> max_size c
      then (case oldest_key (cache c) of
              Inl e \<Rightarrow> Inl e
            | Inr k \<Rightarrow> Inr (AList.delete k (cache c)))
      else Inr (cache c))"

definition ImageCache_set ::
  "key_env \<Rightarrow> real \<Rightarrow> 'v image_cache \<Rightarrow> real \<Rightarrow> real \<Rightarrow> 'v \<Rightarrow> pydict \<Rightarrow> exn + 'v image_cache" where
  "ImageCache_set E now c lat lng v params =
     (case evict_if_full c of
        Inl e \<Rightarrow> Inl e
      | Inr entries \<Rightarrow>
          (let key = make_key E lat lng params
           in Inr (c\<lparr>cache := AList.update key (now, v) entries\<rparr>)))"

text \<open>
  \<open>round(x, ndigits)\<close> on a float: to the nearest multiple of \<open>10^-ndigits\<close>, a tie
  going to the even one.
\<close>

definition round_half_even :: "real \<Rightarrow> int" where
  "round_half_even y =
     (let f = \<lfloor>y\<rfloor>; d = y - of_int f
      in if d < 1 / 2 then f else if d > 1 / 2 then f + 1 else if even f then f else f + 1)"

definition py_round :: "real \<Rightarrow> nat \<Rightarrow> real" where
  "py_round x ndigits = of_int (round_half_even (x * 10 ^ ndigits)) / 10 ^ ndigits"

definition ImageCache_stats :: "'v image_cache \<Rightarrow> pydict" where
  "ImageCache_stats c =
     (let total = hits c + misses c in
      [(''name'', VStr (name c)),
       (''hits'', VInt (hits c)),
       (''misses'', VInt (misses c)),
       (''hit_rate'',
          if total > 0 then VFloat (py_round (real_of_int (hits c) / real_of_int total) 3) else VInt 0),
       (''size'', VInt (int (length (cache c)))),
       (''max_size'', VInt (max_size c)),
       (''ttl_seconds'', VInt (ttl c))])"

definition ImageCache_clear :: "'v image_cache \<Rightarrow> 'v image_cache" where
  "ImageCache_clear c = c\<lparr>cache := [], hits := 0, misses := 0\<rparr>"

definition ImageCache_invalidate ::
  "key_env \<Rightarrow> 'v image_cache \<Rightarrow> real \<Rightarrow> real \<Rightarrow> pydict \<Rightarrow> bool \<times> 'v image_cache" where
  "ImageCache_invalidate E c lat lng params =
     (let key = make_key E lat lng params in
      if map_of (cache c) key \<noteq> None
      then (True, c\<lparr>cache := AList.delete key (cache c)\<rparr>)
      else (False, c))"

text \<open>
  A sequence of operations on one instance. Each \<open>get\<close> and \<open>set\<close> carries its own
  clock reading. A \<open>set\<close> that raises leaves the instance as it was.
\<close>

datatype 'v cache_op =
    OpGet real real pydict real
  | OpSet real real 'v pydict real
  | OpInvalidate real real pydict
  | OpClear
  | OpStats

fun apply_op :: "key_env \<Rightarrow> 'v image_cache \<Rightarrow> 'v cache_op \<Rightarrow> 'v image_cache" where
  "apply_op E c (OpGet lat lng params now) = snd (ImageCache_get E now c lat lng params)"
| "apply_op E c (OpSet lat lng v params now) =
     (case ImageCache_set E now c lat lng v params of Inl e \<Rightarrow> c | Inr c' \<Rightarrow> c')"
| "apply_op E c (OpInvalidate lat lng params) = snd (ImageCache_invalidate E c lat lng params)"
| "apply_op E c OpClear = ImageCache_clear c"
| "apply_op E c OpStats = c"

fun run_ops :: "key_env \<Rightarrow> 'v image_cache \<Rightarrow> 'v cache_op list \<Rightarrow> 'v image_cache" where
  "run_ops E c [] = c"
| "run_ops E c (op # ops) = run_ops E (apply_op E c op) ops"

text \<open>A concrete key environment for evaluating the model, with a simple stand-in for each library function.\<close>

definition plain_key_env :: key_env where
  "plain_key_env =
     \<lparr>fmt6f = (\<lambda>x. if x = 0 then ''0.000000'' else if x = 1 then ''1.000000'' else ''2.000000''),
      repr_items = (\<lambda>ps. concat (map fst ps)),
      md5_hexdigest = (\<lambda>s. s)\<rparr>"

text \<open>
  The representation invariant of an instance: the keys of the dict are unique and the
  number of entries is within the configured maximum.
\<close>

definition cache_inv :: "'v image_cache \<Rightarrow> bool" where
  "cache_inv c = (distinct (map fst (cache c)) \<and> int (length (cache c)) \<le> max_size c)"

section \<open>tools/vision.py: relative direction\<close>

text \<open>Python's \<open>x % m\<close> on floats, for a positive \<open>m\<close>: the result has the sign of \<open>m\<close>.\<close>

definition py_fmod :: "real \<Rightarrow> real \<Rightarrow> real" where
  "py_fmod x m = x - m * of_int \<lfloor>x / m\<rfloor>"

definition relative_angle :: "real \<Rightarrow> real \<Rightarrow> real" where
  "relative_angle user_heading bearing_to_dest = py_fmod (bearing_to_dest - user_heading + 360) 360"

definition get_relative_direction :: "real \<Rightarrow> real \<Rightarrow> string" where
  "get_relative_direction user_heading bearing_to_dest =
     (let relative = relative_angle user_heading bearing_to_dest in
      if relative \<le> 22.5 \<or> relative > 337.5 then ''directly AHEAD''
      else if 22.5 < relative \<and> relative \<le> 67.5 then ''AHEAD and to your RIGHT (2 o'clock)''
      else if 67.5 < relative \<and> relative \<le> 112.5 then ''to your RIGHT (3 o'clock)''
      else if 112.5 < relative \<and> relative \<le> 157.5 then ''BEHIND and to your RIGHT (4 o'clock)''
      else if 157.5 < relative \<and> relative \<le> 202.5 then ''directly BEHIND you''
      else if 202.5 < relative \<and> relative \<le> 247.5 then ''BEHIND and to your LEFT (8 o'clock)''
      else if 247.5 < relative \<and> relative \<le> 292.5 then ''to your LEFT (9 o'clock)''
      else ''AHEAD and to your LEFT (10 o'clock)'')"

text \<open>The eight labels, clockwise from straight ahead.\<close>

definition relative_labels :: "string list" where
  "relative_labels =
     [''directly AHEAD'',
      ''AHEAD and to your RIGHT (2 o'clock)'',
      ''to your RIGHT (3 o'clock)'',
      ''BEHIND and to your RIGHT (4 o'clock)'',
      ''directly BEHIND you'',
      ''BEHIND and to your LEFT (8 o'clock)'',
      ''to your LEFT (9 o'clock)'',
      ''AHEAD and to your LEFT (10 o'clock)'']"

section \<open>tools/vision.py: fetching\<close>

text \<open>
  The environment of the vision tools: the process environment variables, the HTTP
  exchange (\<open>client.get(url, params)\<close> on the n-th attempt either raises or returns a
  response), the image codec behind \<open>compress_image\<close> (which returns bytes whether or not
  it could compress), base64, the float formatting of f-strings, and the elapsed times
  read from \<open>time.perf_counter()\<close>.
\<close>

record response =
  status_code :: int
  content :: string
  resp_text :: string

record env =
  getenv :: "string \<Rightarrow> string option"
  http_get :: "string \<Rightarrow> pydict \<Rightarrow> nat \<Rightarrow> exn + response"
  compress_image :: "string \<Rightarrow> string"
  b64encode :: "string \<Rightarrow> string"
  str_float :: "real \<Rightarrow> string"
  elapsed_ms :: "string \<Rightarrow> pydict \<Rightarrow> real"
  pano_elapsed_ms :: real

text \<open>\<open>str\<close> of an int, for the f-strings.\<close>

function str_nat :: "nat \<Rightarrow> string" where
  "str_nat n = (if n < 10 then [''0123456789'' ! n] else str_nat (n div 10) @ [''0123456789'' ! (n mod 10)])"
  by pat_completeness auto
termination
  by (relation "measure id") auto

declare str_nat.simps [simp del]

definition str_int :: "int \<Rightarrow> string" where
  "str_int i = (if i < 0 then CHR ''-'' # str_nat (nat (- i)) else str_nat (nat i))"

definition str_exn :: "exn \<Rightarrow> string" where
  "str_exn e =
     (case e of
        ValueError m \<Rightarrow> m
      | TimeoutException m \<Rightarrow> m
      | NetworkError m \<Rightarrow> m
      | HTTPStatusError s m \<Rightarrow> m
      | OtherException m \<Rightarrow> m)"

text \<open>\<open>os.getenv("GOOGLE_MAPS_API_KEY") or os.getenv("MAPS_API_KEY")\<close>, refused when falsy.\<close>

definition get_maps_api_key :: "env \<Rightarrow> exn + string" where
  "get_maps_api_key V =
     (let first = getenv V ''GOOGLE_MAPS_API_KEY'';
          key = (if first \<noteq> None \<and> first \<noteq> Some [] then first else getenv V ''MAPS_API_KEY'')
      in case key of
           None \<Rightarrow> Inl (ValueError ''GOOGLE_MAPS_API_KEY environment variable is not set'')
         | Some k \<Rightarrow>
             if k = [] then Inl (ValueError ''GOOGLE_MAPS_API_KEY environment variable is not set'')
             else Inr k)"

datatype api_error = RateLimitError string | QuotaExceededError string | APIError string

definition str_api_error :: "api_error \<Rightarrow> string" where
  "str_api_error e = (case e of RateLimitError m \<Rightarrow> m | QuotaExceededError m \<Rightarrow> m | APIError m \<Rightarrow> m)"

definition lower_char :: "char \<Rightarrow> char" where
  "lower_char c = (if CHR ''A'' \<le> c \<and> c \<le> CHR ''Z'' then char_of (of_char c + (32::nat)) else c)"

fun contains :: "string \<Rightarrow> string \<Rightarrow> bool" where
  "contains needle [] = (needle = [])"
| "contains needle (c # cs) = (take (length needle) (c # cs) = needle \<or> contains needle cs)"

definition categorize_http_error :: "int \<Rightarrow> string \<Rightarrow> api_error" where
  "categorize_http_error status response_text =
     (if status = 429 then RateLimitError ''Rate limit exceeded. Please wait before retrying.''
      else if status = 403 \<and> contains ''quota'' (map lower_char response_text)
      then QuotaExceededError ''API quota exceeded. Check your billing.''
      else APIError (''HTTP '' @ str_int status @ '': '' @ response_text))"

text \<open>
  The body of \<open>_fetch_with_retry\<close>, one attempt: \<open>client.get\<close> followed by
  \<open>raise_for_status\<close>, which raises \<open>HTTPStatusError\<close> unless the status is 2xx.
\<close>

definition fetch_once :: "(string \<Rightarrow> pydict \<Rightarrow> nat \<Rightarrow> exn + response) \<Rightarrow> string \<Rightarrow> pydict \<Rightarrow> nat \<Rightarrow> exn + response" where
  "fetch_once get url params n =
     (case get url params n of
        Inl e \<Rightarrow> Inl e
      | Inr r \<Rightarrow>
          if 200 \<le> status_code r \<and> status_code r < 300 then Inr r
          else Inl (HTTPStatusError (status_code r) (resp_text r)))"

text \<open>
  The \<open>@retry\<close> decorator, with the policies the source configures:
  \<open>stop_after_attempt(3)\<close>, \<open>wait_exponential(multiplier=1, min=1, max=10)\<close>,
  \<open>retry_if_exception_type((TimeoutException, NetworkError))\<close> and \<open>reraise=True\<close>.
  After a failed attempt the retry predicate is asked first, then the stop policy; a
  retry sleeps for the wait policy's time. The result is the outcome, the number of
  attempts made and the sleeps taken, in order.
\<close>

definition stop_after_attempt :: "nat \<Rightarrow> nat \<Rightarrow> bool" where
  "stop_after_attempt max_attempt_number attempt_number = (attempt_number \<ge> max_attempt_number)"

definition wait_exponential :: "real \<Rightarrow> real \<Rightarrow> real \<Rightarrow> nat \<Rightarrow> real" where
  "wait_exponential multiplier mn mx attempt_number =
     max (max 0 mn) (min (multiplier * 2 ^ (attempt_number - 1)) mx)"

definition retry_if_transient :: "exn \<Rightarrow> bool" where
  "retry_if_transient e =
     (case e of TimeoutException m \<Rightarrow> True | NetworkError m \<Rightarrow> True | _ \<Rightarrow> False)"

function retrying :: "(nat \<Rightarrow> exn + 'a) \<Rightarrow> nat \<Rightarrow> real list \<Rightarrow> (exn + 'a) \<times> nat \<times> real list" where
  "retrying attempt n slept =
     (case attempt n of
        Inr r \<Rightarrow> (Inr r, n, slept)
      | Inl e \<Rightarrow>
          if \<not> retry_if_transient e then (Inl e, n, slept)
          else if stop_after_attempt 3 n then (Inl e, n, slept)
          else retrying attempt (Suc n) (slept @ [wait_exponential 1 1 10 n]))"
  by pat_completeness auto
termination
  by (relation "measure (\<lambda>(attempt, n, slept). 3 - n)") (auto simp: stop_after_attempt_def)

declare retrying.simps [simp del]

definition fetch_with_retry ::
  "(string \<Rightarrow> pydict \<Rightarrow> nat \<Rightarrow> exn + response) \<Rightarrow> string \<Rightarrow> pydict \<Rightarrow> (exn + response) \<times> nat \<times> real list" where
  "fetch_with_retry get url params = retrying (fetch_once get url params) 1 []"

section \<open>tools/vision.py: the views\<close>

definition get_overhead_view :: "env \<Rightarrow> real \<Rightarrow> real \<Rightarrow> int \<Rightarrow> string \<Rightarrow> bool \<Rightarrow> exn + pydict" where
  "get_overhead_view V lat lng zoom0 map_type compress =
     (case get_maps_api_key V of
        Inl e \<Rightarrow> Inl e
      | Inr api_key \<Rightarrow>
          (let zoom = max 0 (min 21 zoom0);
               base_url = ''https://maps.googleapis.com/maps/api/staticmap'';
               params = [(''center'', VStr (str_float V lat @ '','' @ str_float V lng)),
                         (''zoom'', VInt zoom),
                         (''size'', VStr ''400x400''),
                         (''maptype'', VStr map_type),
                         (''key'', VStr api_key)]
           in case fst (fetch_with_retry (http_get V) base_url params) of
                Inr resp \<Rightarrow>
                  (let image_bytes = (if compress then compress_image V (content resp) else content resp);
                       image_data = b64encode V image_bytes;
                       latency_ms = elapsed_ms V base_url params
                   in Inr [(''success'', VBool True),
                           (''image_data'', VStr image_data),
                           (''mime_type'', VStr (if \<not> compress then ''image/png'' else ''image/jpeg'')),
                           (''description'',
                              VStr (''Overhead '' @ map_type @ '' view at ('' @ str_float V lat @ '', ''
                                    @ str_float V lng @ ''), zoom level '' @ str_int zoom)),
                           (''parameters'',
                              VDict [(''lat'', VFloat lat), (''lng'', VFloat lng),
                                     (''zoom'', VInt zoom), (''map_type'', VStr map_type)]),
                           (''latency_ms'', VFloat latency_ms)])
              | Inl (HTTPStatusError status txt) \<Rightarrow>
                  Inr [(''success'', VBool False),
                       (''error'', VStr (str_api_error (categorize_http_error status txt)))]
              | Inl e \<Rightarrow>
                  Inr [(''success'', VBool False), (''error'', VStr (str_exn e))]))"

text \<open>The \<open>direction_names\<close> dict of \<open>get_street_view\<close>, in its insertion order.\<close>

definition direction_names :: "((int \<times> int) \<times> string) list" where
  "direction_names =
     [((0, 45), ''North''), ((45, 90), ''Northeast''), ((90, 135), ''East''),
      ((135, 180), ''Southeast''), ((180, 225), ''South''), ((225, 270), ''Southwest''),
      ((270, 315), ''West''), ((315, 360), ''Northwest'')]"

text \<open>The loop over \<open>direction_names.items()\<close> with its \<open>break\<close>; \<open>facing\<close> is the value set before the loop.\<close>

fun find_facing :: "int \<Rightarrow> ((int \<times> int) \<times> string) list \<Rightarrow> string \<Rightarrow> string" where
  "find_facing heading [] facing = facing"
| "find_facing heading (((low, high), nm) # rest) facing =
     (if low \<le> heading \<and> heading < high then nm else find_facing heading rest facing)"

definition pitch_desc_of :: "int \<Rightarrow> string" where
  "pitch_desc_of pitch =
     (if - 15 \<le> pitch \<and> pitch \<le> 15 then ''eye level''
      else if pitch > 15 then ''looking up'' else ''looking down'')"

text \<open>The request parameters \<open>get_street_view\<close> builds from the normalised values.\<close>

definition street_view_params :: "env \<Rightarrow> string \<Rightarrow> real \<Rightarrow> real \<Rightarrow> int \<Rightarrow> int \<Rightarrow> int \<Rightarrow> pydict" where
  "street_view_params V api_key lat lng heading pitch fov =
     [(''location'', VStr (str_float V lat @ '','' @ str_float V lng)),
      (''size'', VStr ''400x400''),
      (''heading'', VInt heading),
      (''pitch'', VInt pitch),
      (''fov'', VInt fov),
      (''key'', VStr api_key)]"

definition get_street_view :: "env \<Rightarrow> real \<Rightarrow> real \<Rightarrow> int \<Rightarrow> int \<Rightarrow> int \<Rightarrow> bool \<Rightarrow> exn + pydict" where
  "get_street_view V lat lng heading0 pitch0 fov0 compress =
     (case get_maps_api_key V of
        Inl e \<Rightarrow> Inl e
      | Inr api_key \<Rightarrow>
          (let heading = heading0 mod 360;
               pitch = max (- 90) (min 90 pitch0);
               fov = max 20 (min 120 fov0);
               base_url = ''https://maps.googleapis.com/maps/api/streetview'';
               params = street_view_params V api_key lat lng heading pitch fov;
               facing = find_facing heading direction_names ''North'';
               pitch_desc = pitch_desc_of pitch
           in case fst (fetch_with_retry (http_get V) base_url params) of
                Inr resp \<Rightarrow>
                  (let image_bytes = (if compress then compress_image V (content resp) else content resp);
                       image_data = b64encode V image_bytes;
                       latency_ms = elapsed_ms V base_url params
                   in Inr [(''success'', VBool True),
                           (''image_data'', VStr image_data),
                           (''mime_type'', VStr ''image/jpeg''),
                           (''description'',
                              VStr (''Street view facing '' @ facing @ '' ('' @ str_int heading
                                    @ [CHR 0xB0] @ ''), '' @ pitch_desc @ '', FOV '' @ str_int fov @ [CHR 0xB0])),
                           (''parameters'',
                              VDict [(''lat'', VFloat lat), (''lng'', VFloat lng),
                                     (''heading'', VInt heading), (''pitch'', VInt pitch),
                                     (''fov'', VInt fov), (''facing'', VStr facing)]),
                           (''latency_ms'', VFloat latency_ms)])
              | Inl (HTTPStatusError status txt) \<Rightarrow>
                  Inr [(''success'', VBool False),
                       (''error'', VStr (str_api_error (categorize_http_error status txt)))]
              | Inl e \<Rightarrow>
                  Inr [(''success'', VBool False), (''error'', VStr (str_exn e))]))"

section \<open>tools/vision.py: the panorama\<close>

definition headings :: "(int \<times> string) list" where
  "headings = [(0, ''North''), (90, ''East''), (180, ''South''), (270, ''West'')]"

text \<open>
  The loop over \<open>zip(headings, results)\<close>. A result of \<open>asyncio.gather\<close> with
  \<open>return_exceptions=True\<close> is either the exception a task raised or the dict it
  returned.
\<close>

fun collect_views ::
  "((int \<times> string) \<times> (exn + pydict)) list \<Rightarrow> pydict list \<Rightarrow> bool \<Rightarrow> pydict list \<times> bool" where
  "collect_views [] views all_success = (views, all_success)"
| "collect_views (((heading, direction), result) # rest) views all_success =
     (case result of
        Inl e \<Rightarrow>
          collect_views rest
            (views @ [[(''success'', VBool False), (''error'', VStr (str_exn e)),
                       (''direction'', VStr direction)]])
            False
      | Inr d \<Rightarrow>
          (let d' = AList.update ''direction'' (VStr direction) d
           in collect_views rest (views @ [d'])
                (if \<not> truthy (dict_get_default d' ''success'' (VBool False)) then False else all_success)))"

text \<open>
  The four tasks are created in the order of \<open>headings\<close> and gathered; the outcome of
  each is fixed by the environment and its own request, whatever the interleaving.
\<close>

definition explore_panoramic :: "env \<Rightarrow> real \<Rightarrow> real \<Rightarrow> int \<Rightarrow> int \<Rightarrow> pydict" where
  "explore_panoramic V lat lng pitch fov =
     (let results = map (\<lambda>(h, d). get_street_view V lat lng h pitch fov True) headings;
          (views, all_success) = collect_views (zip headings results) [] True;
          latency_ms = pano_elapsed_ms V
      in [(''success'', VBool all_success),
          (''views'', VList (map VDict views)),
          (''description'',
             VStr (''360'' @ [CHR 0xB0] @ '' panoramic capture at ('' @ str_float V lat @ '', ''
                   @ str_float V lng @ '')'')),
          (''latency_ms'', VFloat latency_ms)])"

text \<open>The entry the loop appends for one leg, and whether a leg succeeded.\<close>

fun view_entry :: "string \<Rightarrow> exn + pydict \<Rightarrow> pydict" where
  "view_entry direction (Inl e) =
     [(''success'', VBool False), (''error'', VStr (str_exn e)), (''direction'', VStr direction)]"
| "view_entry direction (Inr d) = AList.update ''direction'' (VStr direction) d"

fun leg_ok :: "exn + pydict \<Rightarrow> bool" where
  "leg_ok (Inl e) = False"
| "leg_ok (Inr d) = truthy (dict_get d ''success'')"

section \<open>agent.py: the cache-aware tools\<close>

text \<open>
  The wrappers work on the two module-level caches, and the dicts they cache and return
  are shared objects: the cache holds references, and \<open>cached["from_cache"] = True\<close>
  assigns into the object the cache entry refers to. The state is therefore the two
  caches (of references), the store of dict objects by address, and a log of the calls
  made to the fetching functions. \<open>t_get\<close> and \<open>t_set\<close> are the clock readings of the
  cache's \<open>get\<close> and \<open>set\<close>. A wrapper returns the reference of the dict it hands out, or
  the exception that escapes it.
\<close>

datatype fetch_call = OverheadCall real real int string | StreetCall real real int int int

record world =
  overhead_cache :: "nat image_cache"
  streetview_cache :: "nat image_cache"
  heap :: "pydict list"
  fetch_log :: "fetch_call list"

definition init_world :: world where
  "init_world =
     \<lparr>overhead_cache = set_name (ImageCache_init 3600 100) ''overhead'',
      streetview_cache = set_name (ImageCache_init 1800 100) ''streetview'',
      heap = [],
      fetch_log = []\<rparr>"

definition cached_get_overhead_view ::
  "key_env \<Rightarrow> env \<Rightarrow> real \<Rightarrow> real \<Rightarrow> world \<Rightarrow> real \<Rightarrow> real \<Rightarrow> int \<Rightarrow> string \<Rightarrow> (exn + nat) \<times> world" where
  "cached_get_overhead_view K V t_get t_set w lat lng zoom map_type =
     (let kwargs = [(''zoom'', VInt zoom), (''map_type'', VStr map_type)];
          (cached, oc) = ImageCache_get K t_get (overhead_cache w) lat lng kwargs;
          w1 = w\<lparr>overhead_cache := oc\<rparr>
      in case (case cached of
                 None \<Rightarrow> None
               | Some r \<Rightarrow> if truthy (VDict (heap w1 ! r)) then Some r else None) of
           Some r \<Rightarrow>
             (Inr r, w1\<lparr>heap := (heap w1)[r := AList.update ''from_cache'' (VBool True) (heap w1 ! r)]\<rparr>)
         | None \<Rightarrow>
             (let w2 = w1\<lparr>fetch_log := fetch_log w1 @ [OverheadCall lat lng zoom map_type]\<rparr>
              in case get_overhead_view V lat lng zoom map_type True of
                   Inl e \<Rightarrow> (Inl e, w2)
                 | Inr result \<Rightarrow>
                     (let r = length (heap w2);
                          w3 = w2\<lparr>heap := heap w2 @ [result]\<rparr>
                      in if truthy (dict_get result ''success'')
                         then (case ImageCache_set K t_set (overhead_cache w3) lat lng r kwargs of
                                 Inl e \<Rightarrow> (Inl e, w3)
                               | Inr oc' \<Rightarrow> (Inr r, w3\<lparr>overhead_cache := oc'\<rparr>))
                         else (Inr r, w3))))"

definition cached_get_street_view ::
  "key_env \<Rightarrow> env \<Rightarrow> real \<Rightarrow> real \<Rightarrow> world \<Rightarrow> real \<Rightarrow> real \<Rightarrow> int \<Rightarrow> int \<Rightarrow> int \<Rightarrow> (exn + nat) \<times> world" where
  "cached_get_street_view K V t_get t_set w lat lng heading pitch fov =
     (let kwargs = [(''heading'', VInt heading), (''pitch'', VInt pitch), (''fov'', VInt fov)];
          (cached, sc) = ImageCache_get K t_get (streetview_cache w) lat lng kwargs;
          w1 = w\<lparr>streetview_cache := sc\<rparr>
      in case (case cached of
                 None \<Rightarrow> None
               | Some r \<Rightarrow> if truthy (VDict (heap w1 ! r)) then Some r else None) of
           Some r \<Rightarrow>
             (Inr r, w1\<lparr>heap := (heap w1)[r := AList.update ''from_cache'' (VBool True) (heap w1 ! r)]\<rparr>)
         | None \<Rightarrow>
             (let w2 = w1\<lparr>fetch_log := fetch_log w1 @ [StreetCall lat lng heading pitch fov]\<rparr>
              in case get_street_view V lat lng heading pitch fov True of
                   Inl e \<Rightarrow> (Inl e, w2)
                 | Inr result \<Rightarrow>
                     (let r = length (heap w2);
                          w3 = w2\<lparr>heap := heap w2 @ [result]\<rparr>
                      in if truthy (dict_get result ''success'')
                         then (case ImageCache_set K t_set (streetview_cache w3) lat lng r kwargs of
                                 Inl e \<Rightarrow> (Inl e, w3)
                               | Inr sc' \<Rightarrow> (Inr r, w3\<lparr>streetview_cache := sc'\<rparr>))
                         else (Inr r, w3))))"

text \<open>\<open>clear_all_caches\<close> of cache.py, on the two module-level caches.\<close>

definition clear_all_caches :: "world \<Rightarrow> world" where
  "clear_all_caches w =
     w\<lparr>overhead_cache := ImageCache_clear (overhead_cache w),
       streetview_cache := ImageCache_clear (streetview_cache w)\<rparr>"

text \<open>
  A history of the module state: calls of the two wrappers, each under its own
  environment and clock readings, and calls of \<open>clear_all_caches\<close>. The module state
  starts as \<open>init_world\<close> and is changed by nothing else.
\<close>

datatype tool_call =
    CallOverhead env real real real real int string
  | CallStreet env real real real real int int int
  | CallClearAll

fun apply_call :: "key_env \<Rightarrow> world \<Rightarrow> tool_call \<Rightarrow> world" where
  "apply_call K w (CallOverhead V t_get t_set lat lng zoom map_type) =
     snd (cached_get_overhead_view K V t_get t_set w lat lng zoom map_type)"
| "apply_call K w (CallStreet V t_get t_set lat lng heading pitch fov) =
     snd (cached_get_street_view K V t_get t_set w lat lng heading pitch fov)"
| "apply_call K w CallClearAll = clear_all_caches w"

fun run_calls :: "key_env \<Rightarrow> world \<Rightarrow> tool_call list \<Rightarrow> world" where
  "run_calls K w [] = w"
| "run_calls K w (c # cs) = run_calls K (apply_call K w c) cs"

text \<open>
  The invariant of the module state: both caches are well formed with a
  maximum of at least one, and every cached reference is the address of a dict whose
  \<open>success\<close> is truthy.
\<close>

definition payload_ok :: "pydict list \<Rightarrow> string \<times> real \<times> nat \<Rightarrow> bool" where
  "payload_ok hp e = (snd (snd e) < length hp \<and> truthy (dict_get (hp ! snd (snd e)) ''success''))"

definition world_ok :: "world \<Rightarrow> bool" where
  "world_ok w =
     (cache_inv (overhead_cache w) \<and> cache_inv (streetview_cache w)
      \<and> 1 \<le> max_size (overhead_cache w) \<and> 1 \<le> max_size (streetview_cache w)
      \<and> list_all (payload_ok (heap w)) (cache (overhead_cache w))
      \<and> list_all (payload_ok (heap w)) (cache (streetview_cache w)))"

section \<open>Concrete environments\<close>

text \<open>
  An environment in which the API key is set and every request is answered with status
  200, and one in which the requests with heading 90 fail at the network level.
\<close>

definition plain_env :: env where
  "plain_env =
     \<lparr>getenv = (\<lambda>v. if v = ''GOOGLE_MAPS_API_KEY'' then Some ''KEY'' else None),
      http_get = (\<lambda>url params n. Inr \<lparr>status_code = 200, content = ''img'', resp_text = ''''\<rparr>),
      compress_image = (\<lambda>b. b),
      b64encode = (\<lambda>b. b),
      str_float = (\<lambda>x. ''0.0''),
      elapsed_ms = (\<lambda>url params. 5),
      pano_elapsed_ms = 5\<rparr>"

definition east_down_env :: env where
  "east_down_env =
     plain_env\<lparr>http_get := (\<lambda>url params n.
        if map_of params ''heading'' = Some (VInt 90) then Inl (NetworkError ''unreachable'')
        else Inr \<lparr>status_code = 200, content = ''img'', resp_text = ''''\<rparr>)\<rparr>"

text \<open>
  The payload of the overhead view at (0, 0), zoom 18, in \<open>plain_env\<close>, and the state after
  the first cached call for it at time 0 (stored at time 1).
\<close>

definition satellite_payload :: pydict where
  "satellite_payload =
     [(''success'', VBool True), (''image_data'', VStr ''img''), (''mime_type'', VStr ''image/jpeg''),
      (''description'', VStr ''Overhead satellite view at (0.0, 0.0), zoom level 18''),
      (''parameters'',
         VDict [(''lat'', VFloat 0), (''lng'', VFloat 0), (''zoom'', VInt 18),
                (''map_type'', VStr ''satellite'')]),
      (''latency_ms'', VFloat 5)]"

definition world_after_fetch :: world where
  "world_after_fetch =
     init_world
       \<lparr>overhead_cache :=
          (overhead_cache init_world)\<lparr>cache := [(''0.000000:0.000000:map_typezoom'', (1, 0))], misses := 1\<rparr>,
        heap := [satellite_payload],
        fetch_log := [OverheadCall 0 0 18 ''satellite'']\<rparr>"

section \<open>Properties of ImageCache\<close>

text \<open>
  C2. \<open>get\<close> on an entry younger than the TTL counts a hit and returns the payload; on
  an entry whose age has reached the TTL it deletes the entry, counts a miss and returns
  a miss; on an absent key it counts a miss and returns a miss. Whatever \<open>get\<close> returns
  as a hit is a stored payload whose age is below the TTL.
\<close>

theorem get_hit_expired_miss:
  "(map_of (cache c) (make_key E lat lng params) = Some (ts, v) \<and> now - ts < real_of_int (ttl c)
      \<longrightarrow> ImageCache_get E now c lat lng params = (Some v, c\<lparr>hits := hits c + 1\<rparr>))
   \<and> (map_of (cache c) (make_key E lat lng params) = Some (ts, v) \<and> now - ts \<ge> real_of_int (ttl c)
      \<longrightarrow> ImageCache_get E now c lat lng params =
            (None, c\<lparr>cache := AList.delete (make_key E lat lng params) (cache c), misses := misses c + 1\<rparr>)
          \<and> map_of (cache (snd (ImageCache_get E now c lat lng params))) (make_key E lat lng params) = None)
   \<and> (map_of (cache c) (make_key E lat lng params) = None
      \<longrightarrow> ImageCache_get E now c lat lng params = (None, c\<lparr>misses := misses c + 1\<rparr>))
   \<and> (\<forall>w. fst (ImageCache_get E now c lat lng params) = Some w
      \<longrightarrow> (\<exists>t. map_of (cache c) (make_key E lat lng params) = Some (t, w) \<and> now - t < real_of_int (ttl c)))"
  by (auto simp: ImageCache_get_def Let_def AList.delete_conv split: option.splits)

theorem get_hit_expired_miss_witness:
  "ImageCache_get plain_key_env 100
      ((ImageCache_init 3600 100)\<lparr>cache := [(''0.000000:0.000000:'', (0, 7::nat))]\<rparr>) 0 0 []
     = (Some 7, (ImageCache_init 3600 100)\<lparr>cache := [(''0.000000:0.000000:'', (0, 7::nat))], hits := 1\<rparr>)
   \<and> ImageCache_get plain_key_env 3600
      ((ImageCache_init 3600 100)\<lparr>cache := [(''0.000000:0.000000:'', (0, 7::nat))]\<rparr>) 0 0 []
     = (None, (ImageCache_init 3600 100)\<lparr>cache := [], misses := 1\<rparr>)
   \<and> ImageCache_get plain_key_env 5 (ImageCache_init 3600 100 :: nat image_cache) 0 0 []
     = (None, (ImageCache_init 3600 100)\<lparr>misses := 1\<rparr>)"
  using get_hit_expired_miss [of "(ImageCache_init 3600 100)\<lparr>cache := [(''0.000000:0.000000:'', (0, 7::nat))]\<rparr>" plain_key_env 0 0 "[]" 0 7 100]
    get_hit_expired_miss [of "(ImageCache_init 3600 100)\<lparr>cache := [(''0.000000:0.000000:'', (0, 7::nat))]\<rparr>" plain_key_env 0 0 "[]" 0 7 3600]
    get_hit_expired_miss [of "ImageCache_init 3600 100 :: nat image_cache" plain_key_env 0 0 "[]" 0 7 5]
  by (simp add: make_key_def plain_key_env_def ImageCache_init_def)

subsection \<open>Capacity and eviction\<close>

lemma min_from_in: "min_from f b xs \<in> set (b # xs)"
  by (induction xs arbitrary: b) (auto split: if_splits)

lemma min_from_le_best: "f (min_from f b xs) \<le> f b"
proof (induction xs arbitrary: b)
  case Nil
  show ?case by simp
next
  case (Cons y ys)
  have "f (min_from f (if f y < f b then y else b) ys) \<le> f (if f y < f b then y else b)"
    by (rule Cons.IH)
  then show ?case by (auto split: if_splits)
qed

lemma min_from_le: "x \<in> set xs \<Longrightarrow> f (min_from f b xs) \<le> f x"
proof (induction xs arbitrary: b)
  case Nil
  then show ?case by simp
next
  case (Cons y ys)
  show ?case
  proof (cases "x = y")
    case True
    have "f (min_from f (if f y < f b then y else b) ys) \<le> f (if f y < f b then y else b)"
      by (rule min_from_le_best)
    then show ?thesis using True by (auto split: if_splits)
  next
    case False
    then have "x \<in> set ys" using Cons.prems by simp
    then show ?thesis using Cons.IH by simp
  qed
qed

lemma oldest_key_nonempty:
  assumes "es \<noteq> []"
  shows "\<exists>k t v. oldest_key es = Inr k \<and> (k, (t, v)) \<in> set es \<and> (\<forall>e \<in> set es. t \<le> fst (snd e))"
proof -
  obtain x rest where es: "es = x # rest" using assms by (cases es) auto
  let ?m = "min_from (\<lambda>e. fst (snd e)) x rest"
  have "?m \<in> set es" using min_from_in [of _ x rest] es by simp
  moreover have "\<forall>e \<in> set es. fst (snd ?m) \<le> fst (snd e)"
    using min_from_le [of _ rest "\<lambda>e. fst (snd e)" x] min_from_le_best [of "\<lambda>e. fst (snd e)" x rest] es by auto
  moreover have "oldest_key es = Inr (fst ?m)"
    by (simp add: oldest_key_def py_min_def es)
  ultimately show ?thesis
    by (metis prod.collapse)
qed

lemma length_delete_distinct:
  "distinct (map fst es) \<Longrightarrow> (k, x) \<in> set es \<Longrightarrow> Suc (length (AList.delete k es)) = length es"
  by (induction es) (auto simp: rev_image_eqI)

lemma length_update_le: "length (AList.update k v es) \<le> Suc (length es)"
  by (induction es) auto

lemma set_preserves_inv:
  assumes "cache_inv c" and "ImageCache_set E now c lat lng v params = Inr c'"
  shows "cache_inv c'"
proof (cases "int (length (cache c)) \<ge> max_size c")
  case True
  with assms obtain k where k: "oldest_key (cache c) = Inr k"
    and c': "c' = c\<lparr>cache := AList.update (make_key E lat lng params) (now, v) (AList.delete k (cache c))\<rparr>"
    by (auto simp: ImageCache_set_def evict_if_full_def Let_def split: sum.splits)
  have ne: "cache c \<noteq> []" using k by (auto simp: oldest_key_def py_min_def)
  from oldest_key_nonempty [OF ne] k obtain t v0 where "(k, (t, v0)) \<in> set (cache c)" by auto
  with assms(1) have "Suc (length (AList.delete k (cache c))) = length (cache c)"
    by (simp add: cache_inv_def length_delete_distinct)
  with assms(1) length_update_le [of "make_key E lat lng params" "(now, v)" "AList.delete k (cache c)"]
  show ?thesis by (simp add: c' cache_inv_def distinct_update distinct_delete)
next
  case False
  with assms have c': "c' = c\<lparr>cache := AList.update (make_key E lat lng params) (now, v) (cache c)\<rparr>"
    by (auto simp: ImageCache_set_def evict_if_full_def Let_def)
  with assms(1) False length_update_le [of "make_key E lat lng params" "(now, v)" "cache c"]
  show ?thesis by (simp add: cache_inv_def distinct_update)
qed

lemma delete_not_longer: "length (AList.delete k es) \<le> length es"
  by (simp add: AList.delete_eq)

lemma get_preserves_inv: "cache_inv c \<Longrightarrow> cache_inv (snd (ImageCache_get E now c lat lng params))"
  using delete_not_longer [of "make_key E lat lng params" "cache c"]
  by (auto simp: ImageCache_get_def cache_inv_def Let_def distinct_delete split: option.splits)

lemma invalidate_preserves_inv: "cache_inv c \<Longrightarrow> cache_inv (snd (ImageCache_invalidate E c lat lng params))"
  using delete_not_longer [of "make_key E lat lng params" "cache c"]
  by (auto simp: ImageCache_invalidate_def cache_inv_def Let_def distinct_delete)

lemma clear_preserves_inv: "cache_inv c \<Longrightarrow> cache_inv (ImageCache_clear c)"
  using order_trans [of 0 "int (length (cache c))" "max_size c"]
  by (simp add: ImageCache_clear_def cache_inv_def)

lemma apply_op_preserves_inv: "cache_inv c \<Longrightarrow> cache_inv (apply_op E c op)"
  by (cases op)
     (auto simp: get_preserves_inv invalidate_preserves_inv clear_preserves_inv
           split: sum.splits dest: set_preserves_inv)

lemma run_ops_preserves_inv: "cache_inv c \<Longrightarrow> cache_inv (run_ops E c ops)"
  by (induction ops arbitrary: c) (auto simp: apply_op_preserves_inv)

lemma init_inv: "0 \<le> m \<Longrightarrow> cache_inv (ImageCache_init t m)"
  by (simp add: cache_inv_def ImageCache_init_def)

lemma run_ops_max_size: "max_size (run_ops E c ops) = max_size c"
proof (induction ops arbitrary: c)
  case Nil
  show ?case by simp
next
  case (Cons op ops)
  have "max_size (apply_op E c op) = max_size c"
    by (cases op)
       (auto simp: ImageCache_get_def ImageCache_set_def ImageCache_invalidate_def ImageCache_clear_def Let_def
             split: sum.splits option.splits)
  with Cons.IH [of "apply_op E c op"] show ?case by simp
qed

text \<open>
  C1, as the code has it. With a configured maximum of zero an empty instance is already
  at capacity, and \<open>set\<close> then raises \<open>ValueError\<close> from \<open>min\<close> of an empty dict: it removes
  nothing and inserts nothing. With a negative maximum the empty instance already holds
  more entries than the maximum.
\<close>

theorem set_at_zero_capacity_raises:
  "int (length (cache (ImageCache_init 3600 0 :: nat image_cache)))
      \<ge> max_size (ImageCache_init 3600 0 :: nat image_cache)
   \<and> ImageCache_set plain_key_env 0 (ImageCache_init 3600 0 :: nat image_cache) 0 0 7 []
      = Inl (ValueError ''min() arg is an empty sequence'')
   \<and> \<not> int (length (cache (ImageCache_init 3600 (- 1) :: nat image_cache)))
      \<le> max_size (ImageCache_init 3600 (- 1) :: nat image_cache)"
  by (simp add: ImageCache_set_def evict_if_full_def ImageCache_init_def oldest_key_def py_min_def)

text \<open>
  C1, amended. For an instance created with a maximum of at least one and any sequence of
  operations on it, the number of entries stays within the maximum; and when \<open>set\<close>
  finds the instance at capacity it deletes exactly one entry before inserting, an entry
  whose timestamp is least among the current entries, and leaves every other key as it
  was.
\<close>

theorem set_evicts_oldest:
  assumes "1 \<le> m" and "c = run_ops E (ImageCache_init t m) ops"
  shows "int (length (cache c)) \<le> max_size c \<and> max_size c = m
    \<and> (int (length (cache c)) \<ge> max_size c \<longrightarrow>
         (\<exists>k ts v0. map_of (cache c) k = Some (ts, v0)
            \<and> (\<forall>k' ts' v'. map_of (cache c) k' = Some (ts', v') \<longrightarrow> ts \<le> ts')
            \<and> evict_if_full c = Inr (AList.delete k (cache c))
            \<and> Suc (length (AList.delete k (cache c))) = length (cache c)
            \<and> map_of (AList.delete k (cache c)) = (map_of (cache c))(k := None)
            \<and> ImageCache_set E now c lat lng v params =
                 Inr (c\<lparr>cache := AList.update (make_key E lat lng params) (now, v) (AList.delete k (cache c))\<rparr>)))"
proof -
  have inv: "cache_inv c"
    using assms init_inv [of m t] run_ops_preserves_inv by fastforce
  have m: "max_size c = m"
    using assms(2) by (simp add: run_ops_max_size ImageCache_init_def)
  have evict: ?thesis if full: "int (length (cache c)) \<ge> max_size c"
  proof -
    have ne: "cache c \<noteq> []" using full m assms(1) by auto
    from oldest_key_nonempty [OF ne] obtain k ts v0 where
      k: "oldest_key (cache c) = Inr k" and mem: "(k, (ts, v0)) \<in> set (cache c)"
      and least: "\<forall>e \<in> set (cache c). ts \<le> fst (snd e)" by blast
    have d: "distinct (map fst (cache c))" using inv by (simp add: cache_inv_def)
    have look: "map_of (cache c) k = Some (ts, v0)" using d mem by simp
    have le: "\<forall>k' ts' v'. map_of (cache c) k' = Some (ts', v') \<longrightarrow> ts \<le> ts'"
      using least by (force dest: map_of_SomeD)
    have ev: "evict_if_full c = Inr (AList.delete k (cache c))"
      using full k by (simp add: evict_if_full_def)
    have len: "Suc (length (AList.delete k (cache c))) = length (cache c)"
      using d mem by (rule length_delete_distinct)
    have mp: "map_of (AList.delete k (cache c)) = (map_of (cache c))(k := None)"
      by (rule ext) (simp add: delete_conv)
    have st: "ImageCache_set E now c lat lng v params =
        Inr (c\<lparr>cache := AList.update (make_key E lat lng params) (now, v) (AList.delete k (cache c))\<rparr>)"
      by (simp add: ImageCache_set_def ev Let_def)
    from inv m look le ev len mp st show ?thesis
      unfolding cache_inv_def by blast
  qed
  show ?thesis
  proof (cases "int (length (cache c)) \<ge> max_size c")
    case True
    then show ?thesis by (rule evict)
  next
    case False
    with m show ?thesis by simp
  qed
qed

theorem set_evicts_oldest_witness:
  "(1::int) \<le> 2
   \<and> int (length (cache (run_ops plain_key_env (ImageCache_init 3600 2)
         [OpSet 0 0 (10::nat) [] 1, OpSet 1 1 20 [] 2]))) \<le> 2
   \<and> ImageCache_set plain_key_env 3
        (run_ops plain_key_env (ImageCache_init 3600 2) [OpSet 0 0 (10::nat) [] 1, OpSet 1 1 20 [] 2])
        2 2 30 []
      = Inr ((ImageCache_init 3600 2)
               \<lparr>cache := [(''1.000000:1.000000:'', (2, 20)), (''2.000000:2.000000:'', (3, 30))]\<rparr>)"
  using set_evicts_oldest [of 2
      "run_ops plain_key_env (ImageCache_init 3600 2) [OpSet 0 0 (10::nat) [] 1, OpSet 1 1 20 [] 2]"
      plain_key_env 3600 "[OpSet 0 0 (10::nat) [] 1, OpSet 1 1 20 [] 2]" 3 2 2 30 "[]"]
  by (simp add: ImageCache_set_def evict_if_full_def ImageCache_init_def oldest_key_def py_min_def
        make_key_def plain_key_env_def)

subsection \<open>Read after write\<close>

text \<open>
  C6. A \<open>get\<close> with the same coordinates and parameters right after a \<open>set\<close> that
  returned, read before the TTL has elapsed since the write, is a hit that returns exactly
  the payload that was set.
\<close>

theorem get_after_set:
  "ImageCache_set E t0 c lat lng v params = Inr c' \<Longrightarrow> t1 - t0 < real_of_int (ttl c) \<Longrightarrow>
   ImageCache_get E t1 c' lat lng params = (Some v, c'\<lparr>hits := hits c' + 1\<rparr>)"
  by (auto simp: ImageCache_set_def ImageCache_get_def Let_def update_conv split: sum.splits)

theorem get_after_set_witness:
  "ImageCache_set plain_key_env 10 (ImageCache_init 3600 100) 1 2 (7::nat) [(''zoom'', VInt 18)]
     = Inr ((ImageCache_init 3600 100)\<lparr>cache := [(''1.000000:2.000000:zoom'', (10, 7))]\<rparr>)
   \<and> (20::real) - 10 < real_of_int (ttl (ImageCache_init 3600 100 :: nat image_cache))
   \<and> fst (ImageCache_get plain_key_env 20
        ((ImageCache_init 3600 100)\<lparr>cache := [(''1.000000:2.000000:zoom'', (10, 7::nat))]\<rparr>)
        1 2 [(''zoom'', VInt 18)]) = Some 7"
proof -
  have s: "ImageCache_set plain_key_env 10 (ImageCache_init 3600 100) 1 2 (7::nat) [(''zoom'', VInt 18)]
     = Inr ((ImageCache_init 3600 100)\<lparr>cache := [(''1.000000:2.000000:zoom'', (10, 7))]\<rparr>)"
    by (simp add: ImageCache_set_def evict_if_full_def ImageCache_init_def make_key_def plain_key_env_def)
  have t: "(20::real) - 10 < real_of_int (ttl (ImageCache_init 3600 100 :: nat image_cache))"
    by (simp add: ImageCache_init_def)
  from get_after_set [OF s t] s t show ?thesis by simp
qed

subsection \<open>Statistics\<close>

lemma round_half_even_near: "\<bar>real_of_int (round_half_even y) - y\<bar> \<le> 1 / 2"
  unfolding round_half_even_def Let_def by (auto; linarith)

lemma py_round_3_near: "\<bar>py_round x 3 - x\<bar> \<le> 1 / 2000"
  using round_half_even_near [of "x * 1000"] unfolding py_round_def by (simp add: field_simps)

text \<open>
  C10, as the code has it. After one hit and two misses \<open>stats\<close> reports a hit rate of
  0.333, the quotient rounded to three decimals, not the quotient 1/3 itself.
\<close>

theorem stats_hit_rate_is_rounded:
  "dict_get (ImageCache_stats (run_ops plain_key_env (ImageCache_init 3600 100)
       [OpSet 0 0 (7::nat) [] 0, OpGet 0 0 [] 1, OpGet 1 1 [] 2, OpGet 1 1 [] 3])) ''hits'' = VInt 1
   \<and> dict_get (ImageCache_stats (run_ops plain_key_env (ImageCache_init 3600 100)
       [OpSet 0 0 (7::nat) [] 0, OpGet 0 0 [] 1, OpGet 1 1 [] 2, OpGet 1 1 [] 3])) ''misses'' = VInt 2
   \<and> dict_get (ImageCache_stats (run_ops plain_key_env (ImageCache_init 3600 100)
       [OpSet 0 0 (7::nat) [] 0, OpGet 0 0 [] 1, OpGet 1 1 [] 2, OpGet 1 1 [] 3])) ''hit_rate''
       = VFloat (333 / 1000)
   \<and> dict_get (ImageCache_stats (run_ops plain_key_env (ImageCache_init 3600 100)
       [OpSet 0 0 (7::nat) [] 0, OpGet 0 0 [] 1, OpGet 1 1 [] 2, OpGet 1 1 [] 3])) ''hit_rate''
       \<noteq> VFloat (1 / (1 + 2))"
  by (simp add: ImageCache_stats_def ImageCache_init_def ImageCache_set_def ImageCache_get_def
        evict_if_full_def make_key_def plain_key_env_def dict_get_def py_round_def round_half_even_def Let_def)

text \<open>
  C10, amended. When at least one lookup has been counted, \<open>stats\<close> reports as hit rate
  the quotient hits/(hits+misses) rounded to three decimals: a multiple of 0.001 within
  0.0005 of the quotient. When none has been counted it reports the integer 0. The other
  fields are the name, the two counters, the current size, the maximum size and the TTL.
\<close>

theorem stats_fields:
  "(hits c + misses c > 0 \<longrightarrow>
      (\<exists>r n. map_of (ImageCache_stats c) ''hit_rate'' = Some (VFloat r)
         \<and> r = py_round (real_of_int (hits c) / real_of_int (hits c + misses c)) 3
         \<and> r = real_of_int n / 1000
         \<and> \<bar>r - real_of_int (hits c) / real_of_int (hits c + misses c)\<bar> \<le> 1 / 2000))
   \<and> (hits c + misses c = 0 \<longrightarrow> map_of (ImageCache_stats c) ''hit_rate'' = Some (VInt 0))
   \<and> map_of (ImageCache_stats c) ''name'' = Some (VStr (name c))
   \<and> map_of (ImageCache_stats c) ''hits'' = Some (VInt (hits c))
   \<and> map_of (ImageCache_stats c) ''misses'' = Some (VInt (misses c))
   \<and> map_of (ImageCache_stats c) ''size'' = Some (VInt (int (length (cache c))))
   \<and> map_of (ImageCache_stats c) ''max_size'' = Some (VInt (max_size c))
   \<and> map_of (ImageCache_stats c) ''ttl_seconds'' = Some (VInt (ttl c))"
proof -
  have rate: "\<exists>r n. map_of (ImageCache_stats c) ''hit_rate'' = Some (VFloat r)
         \<and> r = py_round (real_of_int (hits c) / real_of_int (hits c + misses c)) 3
         \<and> r = real_of_int n / 1000
         \<and> \<bar>r - real_of_int (hits c) / real_of_int (hits c + misses c)\<bar> \<le> 1 / 2000"
    if "hits c + misses c > 0"
  proof -
    let ?q = "real_of_int (hits c) / real_of_int (hits c + misses c)"
    have "map_of (ImageCache_stats c) ''hit_rate'' = Some (VFloat (py_round ?q 3))"
      using that by (simp add: ImageCache_stats_def Let_def)
    moreover have "py_round ?q 3 = real_of_int (round_half_even (?q * 1000)) / 1000"
      by (simp add: py_round_def)
    moreover have "\<bar>py_round ?q 3 - ?q\<bar> \<le> 1 / 2000"
      by (rule py_round_3_near)
    ultimately show ?thesis by blast
  qed
  have rest: "(hits c + misses c = 0 \<longrightarrow> map_of (ImageCache_stats c) ''hit_rate'' = Some (VInt 0))
   \<and> map_of (ImageCache_stats c) ''name'' = Some (VStr (name c))
   \<and> map_of (ImageCache_stats c) ''hits'' = Some (VInt (hits c))
   \<and> map_of (ImageCache_stats c) ''misses'' = Some (VInt (misses c))
   \<and> map_of (ImageCache_stats c) ''size'' = Some (VInt (int (length (cache c))))
   \<and> map_of (ImageCache_stats c) ''max_size'' = Some (VInt (max_size c))
   \<and> map_of (ImageCache_stats c) ''ttl_seconds'' = Some (VInt (ttl c))"
    by (simp add: ImageCache_stats_def Let_def)
  from rate rest show ?thesis by blast
qed

theorem stats_fields_witness:
  "map_of (ImageCache_stats ((ImageCache_init 3600 100 :: nat image_cache)\<lparr>hits := 1, misses := 2\<rparr>)) ''hit_rate''
     = Some (VFloat (333 / 1000))
   \<and> map_of (ImageCache_stats (ImageCache_init 3600 100 :: nat image_cache)) ''hit_rate'' = Some (VInt 0)"
  using stats_fields [of "(ImageCache_init 3600 100 :: nat image_cache)\<lparr>hits := 1, misses := 2\<rparr>"]
    stats_fields [of "ImageCache_init 3600 100 :: nat image_cache"]
  by (simp add: ImageCache_stats_def ImageCache_init_def py_round_def round_half_even_def Let_def)

section \<open>Properties of the relative direction\<close>

lemma relative_angle_range: "0 \<le> relative_angle h b \<and> relative_angle h b < 360"
proof -
  let ?x = "b - h + 360"
  have "of_int \<lfloor>?x / 360\<rfloor> \<le> ?x / 360" and "?x / 360 < of_int \<lfloor>?x / 360\<rfloor> + 1"
    by linarith+
  then show ?thesis
    by (simp add: relative_angle_def py_fmod_def field_simps)
qed

lemma relative_angle_id: "0 \<le> r \<Longrightarrow> r < 360 \<Longrightarrow> relative_angle 0 r = r"
proof -
  assume "0 \<le> r" "r < 360"
  then have "\<lfloor>(r + 360) / 360\<rfloor> = 1" by (simp add: floor_eq_iff)
  then show ?thesis by (simp add: relative_angle_def py_fmod_def)
qed

text \<open>
  C9. The relative angle lies in [0, 360), every value of [0, 360) is the relative angle
  of some pair of headings, and each of the eight labels is returned exactly on its
  sector: the first on \<open>relative \<le> 22.5\<close> or \<open>relative > 337.5\<close>, the others on the
  45 degree wide sectors \<open>low < relative \<le> high\<close> that follow. The eight labels are
  pairwise different, so no angle has two labels and none has no label.
\<close>

theorem relative_direction_sectors:
  "0 \<le> relative_angle h b \<and> relative_angle h b < 360
   \<and> (0 \<le> r \<and> r < 360 \<longrightarrow> relative_angle 0 r = r)
   \<and> get_relative_direction h b \<in> set relative_labels
   \<and> distinct relative_labels \<and> length relative_labels = 8
   \<and> (get_relative_direction h b = ''directly AHEAD''
        \<longleftrightarrow> relative_angle h b \<le> 22.5 \<or> 337.5 < relative_angle h b)
   \<and> (get_relative_direction h b = ''AHEAD and to your RIGHT (2 o'clock)''
        \<longleftrightarrow> 22.5 < relative_angle h b \<and> relative_angle h b \<le> 67.5)
   \<and> (get_relative_direction h b = ''to your RIGHT (3 o'clock)''
        \<longleftrightarrow> 67.5 < relative_angle h b \<and> relative_angle h b \<le> 112.5)
   \<and> (get_relative_direction h b = ''BEHIND and to your RIGHT (4 o'clock)''
        \<longleftrightarrow> 112.5 < relative_angle h b \<and> relative_angle h b \<le> 157.5)
   \<and> (get_relative_direction h b = ''directly BEHIND you''
        \<longleftrightarrow> 157.5 < relative_angle h b \<and> relative_angle h b \<le> 202.5)
   \<and> (get_relative_direction h b = ''BEHIND and to your LEFT (8 o'clock)''
        \<longleftrightarrow> 202.5 < relative_angle h b \<and> relative_angle h b \<le> 247.5)
   \<and> (get_relative_direction h b = ''to your LEFT (9 o'clock)''
        \<longleftrightarrow> 247.5 < relative_angle h b \<and> relative_angle h b \<le> 292.5)
   \<and> (get_relative_direction h b = ''AHEAD and to your LEFT (10 o'clock)''
        \<longleftrightarrow> 292.5 < relative_angle h b \<and> relative_angle h b \<le> 337.5)"
proof -
  have labels: "get_relative_direction h b \<in> set relative_labels"
    by (simp add: get_relative_direction_def relative_labels_def Let_def)
  have dist: "distinct relative_labels \<and> length relative_labels = 8"
    by (simp add: relative_labels_def)
  have s0: "get_relative_direction h b = ''directly AHEAD''
        \<longleftrightarrow> relative_angle h b \<le> 22.5 \<or> 337.5 < relative_angle h b"
    by (simp add: get_relative_direction_def Let_def)
  have s1: "get_relative_direction h b = ''AHEAD and to your RIGHT (2 o'clock)''
        \<longleftrightarrow> 22.5 < relative_angle h b \<and> relative_angle h b \<le> 67.5"
    by (simp add: get_relative_direction_def Let_def)
  have s2: "get_relative_direction h b = ''to your RIGHT (3 o'clock)''
        \<longleftrightarrow> 67.5 < relative_angle h b \<and> relative_angle h b \<le> 112.5"
    by (simp add: get_relative_direction_def Let_def)
  have s3: "get_relative_direction h b = ''BEHIND and to your RIGHT (4 o'clock)''
        \<longleftrightarrow> 112.5 < relative_angle h b \<and> relative_angle h b \<le> 157.5"
    by (simp add: get_relative_direction_def Let_def)
  have s4: "get_relative_direction h b = ''directly BEHIND you''
        \<longleftrightarrow> 157.5 < relative_angle h b \<and> relative_angle h b \<le> 202.5"
    by (simp add: get_relative_direction_def Let_def)
  have s5: "get_relative_direction h b = ''BEHIND and to your LEFT (8 o'clock)''
        \<longleftrightarrow> 202.5 < relative_angle h b \<and> relative_angle h b \<le> 247.5"
    by (simp add: get_relative_direction_def Let_def)
  have s6: "get_relative_direction h b = ''to your LEFT (9 o'clock)''
        \<longleftrightarrow> 247.5 < relative_angle h b \<and> relative_angle h b \<le> 292.5"
    by (simp add: get_relative_direction_def Let_def)
  have s7: "get_relative_direction h b = ''AHEAD and to your LEFT (10 o'clock)''
        \<longleftrightarrow> 292.5 < relative_angle h b \<and> relative_angle h b \<le> 337.5"
    using relative_angle_range [of h b] by (auto simp add: get_relative_direction_def Let_def)
  from relative_angle_range [of h b] relative_angle_id [of r] labels dist s0 s1 s2 s3 s4 s5 s6 s7
  show ?thesis by blast
qed

theorem relative_direction_sectors_witness:
  "relative_angle 350 20 = 30 \<and> get_relative_direction 350 20 = ''AHEAD and to your RIGHT (2 o'clock)''
   \<and> relative_angle 0 22.5 = 22.5 \<and> get_relative_direction 0 22.5 = ''directly AHEAD''"
proof -
  have a: "relative_angle 350 20 = 30" by (simp add: relative_angle_def py_fmod_def)
  have b: "relative_angle 0 22.5 = 22.5" by (simp add: relative_angle_def py_fmod_def floor_eq_iff)
  from relative_direction_sectors [of 350 20 30] relative_direction_sectors [of 0 "22.5" "22.5"] a b
  show ?thesis by simp
qed

section \<open>Properties of the retry policy\<close>

lemma retrying_3: "retrying a 3 s = (a 3, 3, s)"
  by (subst retrying.simps) (simp add: stop_after_attempt_def split: sum.splits)

lemma retrying_2:
  "retrying a 2 s =
     (case a 2 of
        Inr r \<Rightarrow> (Inr r, 2, s)
      | Inl e \<Rightarrow> if retry_if_transient e then (a 3, 3, s @ [2]) else (Inl e, 2, s))"
  by (subst retrying.simps)
     (simp add: stop_after_attempt_def wait_exponential_def retrying_3 split: sum.splits)

lemma retrying_1:
  "retrying a (Suc 0) s =
     (case a (Suc 0) of
        Inr r \<Rightarrow> (Inr r, Suc 0, s)
      | Inl e \<Rightarrow> if retry_if_transient e then retrying a 2 (s @ [1]) else (Inl e, Suc 0, s))"
  by (subst retrying.simps)
     (simp add: stop_after_attempt_def wait_exponential_def numeral_2_eq_2 [symmetric] split: sum.splits)

lemma fetch_with_retry_unfold:
  "fetch_with_retry get url params =
     (case fetch_once get url params 1 of
        Inr r \<Rightarrow> (Inr r, 1, [])
      | Inl e1 \<Rightarrow>
          if \<not> retry_if_transient e1 then (Inl e1, 1, [])
          else (case fetch_once get url params 2 of
                  Inr r \<Rightarrow> (Inr r, 2, [1])
                | Inl e2 \<Rightarrow>
                    if \<not> retry_if_transient e2 then (Inl e2, 2, [1])
                    else (fetch_once get url params 3, 3, [1, 2])))"
  by (simp add: fetch_with_retry_def retrying_1 retrying_2 split: sum.splits)

lemma wait_policy: "1 \<le> k \<Longrightarrow> wait_exponential 1 1 10 k = min 10 (2 ^ (k - 1))"
  by (simp add: wait_exponential_def max_def min_def)

text \<open>
  C4. \<open>_fetch_with_retry\<close> makes between one and three attempts; every attempt before
  the last one failed with a timeout or a network error; it stops before the third
  attempt only on a success or on a failure that is neither; a response with a status
  outside 2xx is an \<open>HTTPStatusError\<close>, which is not retried; the result is the outcome of
  the last attempt, so the final failure is surfaced; and the sleeps between the attempts
  are those of the wait policy, 1 s doubling up to the cap of 10 s.
\<close>

theorem fetch_retry_policy:
  "1 \<le> fst (snd (fetch_with_retry get url params))
   \<and> fst (snd (fetch_with_retry get url params)) \<le> 3
   \<and> fst (fetch_with_retry get url params)
        = fetch_once get url params (fst (snd (fetch_with_retry get url params)))
   \<and> (\<forall>k. 1 \<le> k \<and> k < fst (snd (fetch_with_retry get url params))
         \<longrightarrow> (\<exists>m. fetch_once get url params k = Inl (TimeoutException m)
                    \<or> fetch_once get url params k = Inl (NetworkError m)))
   \<and> (\<forall>m. fst (snd (fetch_with_retry get url params)) < 3
         \<longrightarrow> fst (fetch_with_retry get url params) \<noteq> Inl (TimeoutException m)
            \<and> fst (fetch_with_retry get url params) \<noteq> Inl (NetworkError m))
   \<and> (\<forall>k r. get url params k = Inr r \<and> \<not> (200 \<le> status_code r \<and> status_code r < 300)
         \<longrightarrow> fetch_once get url params k = Inl (HTTPStatusError (status_code r) (resp_text r))
            \<and> \<not> retry_if_transient (HTTPStatusError (status_code r) (resp_text r)))
   \<and> snd (snd (fetch_with_retry get url params))
        = map (\<lambda>k. wait_exponential 1 1 10 k) [1..<fst (snd (fetch_with_retry get url params))]
   \<and> (\<forall>k. 1 \<le> k \<longrightarrow> wait_exponential 1 1 10 k = min 10 (2 ^ (k - 1)))"
proof -
  let ?a = "fetch_once get url params"
  let ?R = "fetch_with_retry get url params"
  have tr: "retry_if_transient e \<longleftrightarrow> (\<exists>m. e = TimeoutException m \<or> e = NetworkError m)" for e
    by (cases e) (simp_all add: retry_if_transient_def)
  have up: "[Suc 0..<3] = [Suc 0, 2]" "[Suc 0..<2] = [Suc 0]"
    by (simp_all add: upt_rec)
  have w: "wait_exponential 1 1 10 (Suc 0) = 1" "wait_exponential 1 1 10 2 = 2"
    by (simp_all add: wait_exponential_def)
  have less3: "k = Suc 0 \<or> k = 2" if "Suc 0 \<le> k" "k < 3" for k :: nat using that by arith
  have less2: "k = Suc 0" if "Suc 0 \<le> k" "k < 2" for k :: nat using that by arith
  have main: "1 \<le> fst (snd ?R) \<and> fst (snd ?R) \<le> 3 \<and> fst ?R = ?a (fst (snd ?R))
     \<and> (\<forall>k. 1 \<le> k \<and> k < fst (snd ?R) \<longrightarrow> (\<exists>e. ?a k = Inl e \<and> retry_if_transient e))
     \<and> (fst (snd ?R) < 3 \<longrightarrow> (\<forall>e. fst ?R = Inl e \<longrightarrow> \<not> retry_if_transient e))
     \<and> snd (snd ?R) = map (\<lambda>k. wait_exponential 1 1 10 k) [1..<fst (snd ?R)]"
    unfolding fetch_with_retry_unfold
    by (auto simp: up w split: sum.splits dest: less3 less2)
  have status: "\<forall>k r. get url params k = Inr r \<and> \<not> (200 \<le> status_code r \<and> status_code r < 300)
         \<longrightarrow> ?a k = Inl (HTTPStatusError (status_code r) (resp_text r))
            \<and> \<not> retry_if_transient (HTTPStatusError (status_code r) (resp_text r))"
    by (auto simp: fetch_once_def retry_if_transient_def)
  from main status wait_policy show ?thesis
    unfolding tr by (auto simp: tr)
qed

theorem fetch_retry_policy_witness:
  "fetch_with_retry
      (\<lambda>url params n. if n < 3 then Inl (TimeoutException ''timed out'')
                       else Inr \<lparr>status_code = 200, content = ''img'', resp_text = ''''\<rparr>)
      ''u'' []
     = (Inr \<lparr>status_code = 200, content = ''img'', resp_text = ''''\<rparr>, 3, [1, 2])
   \<and> fetch_with_retry
      (\<lambda>url params n. Inr \<lparr>status_code = 500, content = '''', resp_text = ''boom''\<rparr>) ''u'' []
     = (Inl (HTTPStatusError 500 ''boom''), 1, [])"
  using fetch_retry_policy [of "\<lambda>url params n. if n < 3 then Inl (TimeoutException ''timed out'')
                       else Inr \<lparr>status_code = 200, content = ''img'', resp_text = ''''\<rparr>" "''u''" "[]"]
    fetch_retry_policy [of "\<lambda>url params n. Inr \<lparr>status_code = 500, content = '''', resp_text = ''boom''\<rparr>" "''u''" "[]"]
  by (simp add: fetch_with_retry_unfold fetch_once_def retry_if_transient_def)

section \<open>Properties of the street view\<close>

lemma find_facing_bands:
  assumes "0 \<le> h" "h < 360"
  shows "(find_facing h direction_names ''North'' = ''North'' \<longleftrightarrow> 0 \<le> h \<and> h < 45)
   \<and> (find_facing h direction_names ''North'' = ''Northeast'' \<longleftrightarrow> 45 \<le> h \<and> h < 90)
   \<and> (find_facing h direction_names ''North'' = ''East'' \<longleftrightarrow> 90 \<le> h \<and> h < 135)
   \<and> (find_facing h direction_names ''North'' = ''Southeast'' \<longleftrightarrow> 135 \<le> h \<and> h < 180)
   \<and> (find_facing h direction_names ''North'' = ''South'' \<longleftrightarrow> 180 \<le> h \<and> h < 225)
   \<and> (find_facing h direction_names ''North'' = ''Southwest'' \<longleftrightarrow> 225 \<le> h \<and> h < 270)
   \<and> (find_facing h direction_names ''North'' = ''West'' \<longleftrightarrow> 270 \<le> h \<and> h < 315)
   \<and> (find_facing h direction_names ''North'' = ''Northwest'' \<longleftrightarrow> 315 \<le> h \<and> h < 360)"
  using assms by (simp add: direction_names_def)

lemma pitch_desc_cases:
  "(pitch_desc_of p = ''eye level'' \<longleftrightarrow> \<bar>p\<bar> \<le> 15)
   \<and> (pitch_desc_of p = ''looking up'' \<longleftrightarrow> p > 15)
   \<and> (pitch_desc_of p = ''looking down'' \<longleftrightarrow> p < - 15)"
  by (auto simp: pitch_desc_of_def)

lemma get_street_view_idem:
  "get_street_view V lat lng heading pitch fov compress
     = get_street_view V lat lng (heading mod 360) (max (- 90) (min 90 pitch)) (max 20 (min 120 fov)) compress"
proof -
  have "max (- 90) (min 90 (max (- 90) (min 90 pitch))) = max (- 90) (min 90 pitch)"
    and "max 20 (min 120 (max 20 (min 120 fov))) = max 20 (min 120 fov)"
    by auto
  then show ?thesis
    unfolding get_street_view_def by (simp only: mod_mod_trivial)
qed

lemma get_street_view_cases:
  "(\<exists>e. get_maps_api_key V = Inl e \<and> get_street_view V lat lng heading pitch fov compress = Inl e)
   \<or> (\<exists>msg. get_street_view V lat lng heading pitch fov compress
         = Inr [(''success'', VBool False), (''error'', VStr msg)])
   \<or> (\<exists>img ms. get_street_view V lat lng heading pitch fov compress
         = Inr [(''success'', VBool True),
                (''image_data'', VStr img),
                (''mime_type'', VStr ''image/jpeg''),
                (''description'',
                   VStr (''Street view facing '' @ find_facing (heading mod 360) direction_names ''North''
                         @ '' ('' @ str_int (heading mod 360) @ [CHR 0xB0] @ ''), ''
                         @ pitch_desc_of (max (- 90) (min 90 pitch)) @ '', FOV ''
                         @ str_int (max 20 (min 120 fov)) @ [CHR 0xB0])),
                (''parameters'',
                   VDict [(''lat'', VFloat lat), (''lng'', VFloat lng),
                          (''heading'', VInt (heading mod 360)),
                          (''pitch'', VInt (max (- 90) (min 90 pitch))),
                          (''fov'', VInt (max 20 (min 120 fov))),
                          (''facing'', VStr (find_facing (heading mod 360) direction_names ''North''))]),
                (''latency_ms'', VFloat ms)])"
  unfolding get_street_view_def Let_def
  by (auto split: sum.splits exn.splits)


lemma street_view_request:
  "get_maps_api_key V = Inr key \<Longrightarrow>
     leg_ok (get_street_view V lat lng heading pitch fov compress)
       = (\<exists>resp. fst (fetch_with_retry (http_get V) ''https://maps.googleapis.com/maps/api/streetview''
             (street_view_params V key lat lng (heading mod 360) (max (- 90) (min 90 pitch))
                (max 20 (min 120 fov)))) = Inr resp)"
  by (auto simp: get_street_view_def Let_def dict_get_def split: sum.splits exn.splits)

text \<open>
  C8. \<open>get_street_view\<close> works on the heading reduced modulo 360, which lies in
  [0, 360), the pitch clamped into [-90, 90] and the field of view clamped into
  [20, 120]: calling it with the raw values is calling it with the normalised ones, and
  the request it sends carries the normalised values. It either raises for a missing
  key, returns a failure with an error message, or returns a success whose parameters
  and description carry the normalised values, the compass label and the pitch
  descriptor. The label is the one of the 45 degree band holding the normalised heading,
  eight bands from 0; the descriptor is eye level when the pitch is within 15 of zero,
  looking up above and looking down below.
\<close>

theorem street_view_normalises:
  "0 \<le> heading mod 360 \<and> heading mod 360 < 360
   \<and> - 90 \<le> max (- 90) (min 90 pitch) \<and> max (- 90) (min 90 pitch) \<le> 90
   \<and> 20 \<le> max 20 (min 120 fov) \<and> max 20 (min 120 fov) \<le> 120
   \<and> get_street_view V lat lng heading pitch fov compress
       = get_street_view V lat lng (heading mod 360) (max (- 90) (min 90 pitch)) (max 20 (min 120 fov)) compress
   \<and> (\<forall>key. get_maps_api_key V = Inr key \<longrightarrow>
        leg_ok (get_street_view V lat lng heading pitch fov compress)
          = (\<exists>resp. fst (fetch_with_retry (http_get V) ''https://maps.googleapis.com/maps/api/streetview''
                (street_view_params V key lat lng (heading mod 360) (max (- 90) (min 90 pitch))
                   (max 20 (min 120 fov)))) = Inr resp))
   \<and> ((\<exists>e. get_maps_api_key V = Inl e \<and> get_street_view V lat lng heading pitch fov compress = Inl e)
      \<or> (\<exists>msg. get_street_view V lat lng heading pitch fov compress
           = Inr [(''success'', VBool False), (''error'', VStr msg)])
      \<or> (\<exists>img ms. get_street_view V lat lng heading pitch fov compress
           = Inr [(''success'', VBool True),
                  (''image_data'', VStr img),
                  (''mime_type'', VStr ''image/jpeg''),
                  (''description'',
                     VStr (''Street view facing '' @ find_facing (heading mod 360) direction_names ''North''
                           @ '' ('' @ str_int (heading mod 360) @ [CHR 0xB0] @ ''), ''
                           @ pitch_desc_of (max (- 90) (min 90 pitch)) @ '', FOV ''
                           @ str_int (max 20 (min 120 fov)) @ [CHR 0xB0])),
                  (''parameters'',
                     VDict [(''lat'', VFloat lat), (''lng'', VFloat lng),
                            (''heading'', VInt (heading mod 360)),
                            (''pitch'', VInt (max (- 90) (min 90 pitch))),
                            (''fov'', VInt (max 20 (min 120 fov))),
                            (''facing'', VStr (find_facing (heading mod 360) direction_names ''North''))]),
                  (''latency_ms'', VFloat ms)]))
   \<and> (find_facing (heading mod 360) direction_names ''North'' = ''North''
        \<longleftrightarrow> 0 \<le> heading mod 360 \<and> heading mod 360 < 45)
   \<and> (find_facing (heading mod 360) direction_names ''North'' = ''Northeast''
        \<longleftrightarrow> 45 \<le> heading mod 360 \<and> heading mod 360 < 90)
   \<and> (find_facing (heading mod 360) direction_names ''North'' = ''East''
        \<longleftrightarrow> 90 \<le> heading mod 360 \<and> heading mod 360 < 135)
   \<and> (find_facing (heading mod 360) direction_names ''North'' = ''Southeast''
        \<longleftrightarrow> 135 \<le> heading mod 360 \<and> heading mod 360 < 180)
   \<and> (find_facing (heading mod 360) direction_names ''North'' = ''South''
        \<longleftrightarrow> 180 \<le> heading mod 360 \<and> heading mod 360 < 225)
   \<and> (find_facing (heading mod 360) direction_names ''North'' = ''Southwest''
        \<longleftrightarrow> 225 \<le> heading mod 360 \<and> heading mod 360 < 270)
   \<and> (find_facing (heading mod 360) direction_names ''North'' = ''West''
        \<longleftrightarrow> 270 \<le> heading mod 360 \<and> heading mod 360 < 315)
   \<and> (find_facing (heading mod 360) direction_names ''North'' = ''Northwest''
        \<longleftrightarrow> 315 \<le> heading mod 360 \<and> heading mod 360 < 360)
   \<and> (pitch_desc_of (max (- 90) (min 90 pitch)) = ''eye level'' \<longleftrightarrow> \<bar>pitch\<bar> \<le> 15)
   \<and> (pitch_desc_of (max (- 90) (min 90 pitch)) = ''looking up'' \<longleftrightarrow> pitch > 15)
   \<and> (pitch_desc_of (max (- 90) (min 90 pitch)) = ''looking down'' \<longleftrightarrow> pitch < - 15)"
proof -
  have rng: "0 \<le> heading mod 360 \<and> heading mod 360 < 360
   \<and> - 90 \<le> max (- 90) (min 90 pitch) \<and> max (- 90) (min 90 pitch) \<le> 90
   \<and> 20 \<le> max 20 (min 120 fov) \<and> max 20 (min 120 fov) \<le> 120"
    by simp
  have pd: "(pitch_desc_of (max (- 90) (min 90 pitch)) = ''eye level'' \<longleftrightarrow> \<bar>pitch\<bar> \<le> 15)
   \<and> (pitch_desc_of (max (- 90) (min 90 pitch)) = ''looking up'' \<longleftrightarrow> pitch > 15)
   \<and> (pitch_desc_of (max (- 90) (min 90 pitch)) = ''looking down'' \<longleftrightarrow> pitch < - 15)"
    using pitch_desc_cases [of "max (- 90) (min 90 pitch)"] by (auto simp: max_def min_def)
  have bands: "0 \<le> heading mod 360" "heading mod 360 < 360"
    by simp_all
  from rng get_street_view_idem [of V lat lng heading pitch fov compress]
    street_view_request [of V _ lat lng heading pitch fov compress]
    get_street_view_cases [of V lat lng heading pitch fov compress]
    find_facing_bands [OF bands] pd
  show ?thesis by blast
qed

theorem street_view_normalises_witness:
  "get_maps_api_key plain_env = Inr ''KEY''
   \<and> get_street_view plain_env 0 0 370 0 90 True =
       Inr [(''success'', VBool True), (''image_data'', VStr ''img''), (''mime_type'', VStr ''image/jpeg''),
            (''description'',
               VStr (''Street view facing North (10'' @ [CHR 0xB0] @ ''), eye level, FOV 90'' @ [CHR 0xB0])),
            (''parameters'',
               VDict [(''lat'', VFloat 0), (''lng'', VFloat 0), (''heading'', VInt 10),
                      (''pitch'', VInt 0), (''fov'', VInt 90), (''facing'', VStr ''North'')]),
            (''latency_ms'', VFloat 5)]"
  using street_view_normalises [of 370 0 90 plain_env 0 0 True]
  by (simp add: get_street_view_def get_maps_api_key_def plain_env_def street_view_params_def
        fetch_with_retry_unfold fetch_once_def direction_names_def pitch_desc_of_def str_int_def
        str_nat.simps Let_def)

section \<open>Properties of the panorama\<close>

lemma update_direction_get:
  "dict_get (AList.update ''direction'' v d) ''success'' = dict_get d ''success''"
  by (simp add: dict_get_def update_conv)

lemma truthy_default: "truthy (dict_get_default d ''success'' (VBool False)) = truthy (dict_get d ''success'')"
  by (simp add: dict_get_default_def dict_get_def split: option.splits)

lemma collect_views_eq:
  "collect_views xs views ok =
     (views @ map (\<lambda>((h, d), r). view_entry d r) xs, ok \<and> list_all (\<lambda>((h, d), r). leg_ok r) xs)"
proof (induction xs arbitrary: views ok)
  case Nil
  show ?case by simp
next
  case (Cons x xs)
  obtain h d r where x: "x = ((h, d), r)" by (metis prod.collapse)
  show ?case
  proof (cases r)
    case (Inl e)
    then show ?thesis by (simp add: x Cons.IH)
  next
    case (Inr p)
    then show ?thesis
      by (simp add: x Cons.IH Let_def update_direction_get truthy_default)
  qed
qed

lemma view_entry_direction: "dict_get (view_entry direction r) ''direction'' = VStr direction"
  by (cases r) (simp_all add: dict_get_def update_conv)

lemma get_street_view_shape:
  "(\<exists>e. get_street_view V lat lng h pitch fov c = Inl e)
   \<or> (\<exists>msg. get_street_view V lat lng h pitch fov c = Inr [(''success'', VBool False), (''error'', VStr msg)])
   \<or> (\<exists>d. get_street_view V lat lng h pitch fov c = Inr d
         \<and> map_of d ''success'' = Some (VBool True) \<and> map_of d ''error'' = None)"
  using get_street_view_cases [of V lat lng h pitch fov c]
  by (elim disjE exE) simp_all

lemma view_entry_street:
  "truthy (dict_get (view_entry direction (get_street_view V lat lng h pitch fov c)) ''success'')
      = leg_ok (get_street_view V lat lng h pitch fov c)
   \<and> (\<not> leg_ok (get_street_view V lat lng h pitch fov c) \<longrightarrow>
        (\<exists>msg. map_of (view_entry direction (get_street_view V lat lng h pitch fov c)) ''error'' = Some (VStr msg)))
   \<and> (leg_ok (get_street_view V lat lng h pitch fov c) \<longrightarrow>
        map_of (view_entry direction (get_street_view V lat lng h pitch fov c)) ''error'' = None)"
  using get_street_view_shape [of V lat lng h pitch fov c]
  by (elim disjE exE conjE) (simp_all add: dict_get_def update_conv)

text \<open>
  C5. The views of \<open>explore_panoramic\<close> are the four entries made from the results of
  \<open>get_street_view\<close> at the headings 0, 90, 180 and 270, in this order, whatever each of
  them returned or raised. Each entry carries its compass direction; the entry of a leg
  that failed carries an error and no other entry does; and the overall success flag is
  true exactly when all four legs succeeded.
\<close>

theorem panoramic_views:
  "dict_get (explore_panoramic V lat lng pitch fov) ''views''
     = VList (map VDict
         [view_entry ''North'' (get_street_view V lat lng 0 pitch fov True),
          view_entry ''East'' (get_street_view V lat lng 90 pitch fov True),
          view_entry ''South'' (get_street_view V lat lng 180 pitch fov True),
          view_entry ''West'' (get_street_view V lat lng 270 pitch fov True)])
   \<and> (\<forall>(h, direction) \<in> set headings.
        dict_get (view_entry direction (get_street_view V lat lng h pitch fov True)) ''direction'' = VStr direction
        \<and> truthy (dict_get (view_entry direction (get_street_view V lat lng h pitch fov True)) ''success'')
            = leg_ok (get_street_view V lat lng h pitch fov True)
        \<and> (\<not> leg_ok (get_street_view V lat lng h pitch fov True) \<longrightarrow>
             (\<exists>msg. map_of (view_entry direction (get_street_view V lat lng h pitch fov True)) ''error'' = Some (VStr msg)))
        \<and> (leg_ok (get_street_view V lat lng h pitch fov True) \<longrightarrow>
             map_of (view_entry direction (get_street_view V lat lng h pitch fov True)) ''error'' = None))
   \<and> dict_get (explore_panoramic V lat lng pitch fov) ''success''
       = VBool (\<forall>(h, direction) \<in> set headings. leg_ok (get_street_view V lat lng h pitch fov True))"
proof -
  have views: "dict_get (explore_panoramic V lat lng pitch fov) ''views''
     = VList (map VDict
         [view_entry ''North'' (get_street_view V lat lng 0 pitch fov True),
          view_entry ''East'' (get_street_view V lat lng 90 pitch fov True),
          view_entry ''South'' (get_street_view V lat lng 180 pitch fov True),
          view_entry ''West'' (get_street_view V lat lng 270 pitch fov True)])"
    by (simp add: explore_panoramic_def collect_views_eq headings_def dict_get_def)
  have flag: "dict_get (explore_panoramic V lat lng pitch fov) ''success''
       = VBool (\<forall>(h, direction) \<in> set headings. leg_ok (get_street_view V lat lng h pitch fov True))"
    by (simp add: explore_panoramic_def collect_views_eq headings_def dict_get_def)
  have each: "\<forall>(h, direction) \<in> set headings.
        dict_get (view_entry direction (get_street_view V lat lng h pitch fov True)) ''direction'' = VStr direction
        \<and> truthy (dict_get (view_entry direction (get_street_view V lat lng h pitch fov True)) ''success'')
            = leg_ok (get_street_view V lat lng h pitch fov True)
        \<and> (\<not> leg_ok (get_street_view V lat lng h pitch fov True) \<longrightarrow>
             (\<exists>msg. map_of (view_entry direction (get_street_view V lat lng h pitch fov True)) ''error'' = Some (VStr msg)))
        \<and> (leg_ok (get_street_view V lat lng h pitch fov True) \<longrightarrow>
             map_of (view_entry direction (get_street_view V lat lng h pitch fov True)) ''error'' = None)"
    by (simp add: headings_def view_entry_street view_entry_direction)
  from views each flag show ?thesis by blast
qed

theorem panoramic_views_witness:
  "leg_ok (get_street_view east_down_env 0 0 0 0 90 True)
   \<and> \<not> leg_ok (get_street_view east_down_env 0 0 90 0 90 True)
   \<and> leg_ok (get_street_view east_down_env 0 0 180 0 90 True)
   \<and> leg_ok (get_street_view east_down_env 0 0 270 0 90 True)
   \<and> map_of (view_entry ''East'' (get_street_view east_down_env 0 0 90 0 90 True)) ''error''
       = Some (VStr ''unreachable'')
   \<and> dict_get (explore_panoramic east_down_env 0 0 0 90) ''success'' = VBool False"
proof -
  have legs: "leg_ok (get_street_view east_down_env 0 0 0 0 90 True)
   \<and> get_street_view east_down_env 0 0 90 0 90 True
       = Inr [(''success'', VBool False), (''error'', VStr ''unreachable'')]
   \<and> leg_ok (get_street_view east_down_env 0 0 180 0 90 True)
   \<and> leg_ok (get_street_view east_down_env 0 0 270 0 90 True)"
    by (simp add: get_street_view_def get_maps_api_key_def east_down_env_def plain_env_def
          street_view_params_def fetch_with_retry_unfold fetch_once_def retry_if_transient_def
          str_exn_def dict_get_def Let_def)
  from panoramic_views [of east_down_env 0 0 0 90] legs show ?thesis
    by (simp add: headings_def dict_get_def)
qed

section \<open>Properties of the cache-aware tools\<close>

lemma payload_ok_append: "payload_ok hp e \<Longrightarrow> payload_ok (hp @ [d]) e"
  by (simp add: payload_ok_def nth_append)

lemma payload_ok_mark:
  "payload_ok hp e \<Longrightarrow> payload_ok (hp[r := AList.update ''from_cache'' v (hp ! r)]) e"
  by (cases "snd (snd e) = r") (simp_all add: payload_ok_def dict_get_def update_conv)

lemma list_all_delete: "list_all P es \<Longrightarrow> list_all P (AList.delete k es)"
  by (induction es) auto

lemma list_all_update: "list_all P es \<Longrightarrow> P (k, v) \<Longrightarrow> list_all P (AList.update k v es)"
  by (induction es) auto

lemma entries_append: "list_all (payload_ok hp) es \<Longrightarrow> list_all (payload_ok (hp @ [d])) es"
  by (induction es) (auto simp: payload_ok_append)

lemma entries_mark:
  "list_all (payload_ok hp) es \<Longrightarrow>
   list_all (payload_ok (hp[r := AList.update ''from_cache'' v (hp ! r)])) es"
  by (induction es) (auto simp: payload_ok_mark)

lemma get_entries:
  "list_all P (cache c) \<Longrightarrow> list_all P (cache (snd (ImageCache_get K t c lat lng kw)))"
  by (auto simp: ImageCache_get_def Let_def list_all_delete split: option.splits)

lemma get_hit_entry:
  "fst (ImageCache_get K t c lat lng kw) = Some r \<Longrightarrow>
   \<exists>ts. (make_key K lat lng kw, (ts, r)) \<in> set (cache c) \<and> snd (ImageCache_get K t c lat lng kw) = c\<lparr>hits := hits c + 1\<rparr>"
  by (fastforce simp: ImageCache_get_def Let_def split: option.splits if_splits dest: map_of_SomeD)

lemma get_miss_max: "max_size (snd (ImageCache_get K t c lat lng kw)) = max_size c"
  by (auto simp: ImageCache_get_def Let_def split: option.splits)

lemma set_succeeds:
  assumes "cache_inv c" "1 \<le> max_size c"
  shows "\<exists>k. ImageCache_set K t c lat lng v kw
      = Inr (c\<lparr>cache := AList.update (make_key K lat lng kw) (t, v)
                 (if int (length (cache c)) \<ge> max_size c then AList.delete k (cache c) else cache c)\<rparr>)"
proof (cases "int (length (cache c)) \<ge> max_size c")
  case True
  then have "cache c \<noteq> []" using assms(2) by auto
  from oldest_key_nonempty [OF this] obtain k where "oldest_key (cache c) = Inr k" by blast
  with True show ?thesis by (auto simp: ImageCache_set_def evict_if_full_def Let_def)
next
  case False
  then show ?thesis by (simp add: ImageCache_set_def evict_if_full_def Let_def)
qed

lemma hit_payload:
  assumes "list_all (payload_ok hp) (cache c)" "fst (ImageCache_get K t c lat lng kw) = Some r"
  shows "r < length hp \<and> truthy (dict_get (hp ! r) ''success'') \<and> hp ! r \<noteq> []"
proof -
  from get_hit_entry [OF assms(2)] obtain ts where "(make_key K lat lng kw, (ts, r)) \<in> set (cache c)"
    by blast
  with assms(1) have "payload_ok hp (make_key K lat lng kw, (ts, r))"
    by (simp add: list_all_iff)
  then show ?thesis by (auto simp: payload_ok_def dict_get_def)
qed

lemma overhead_hit:
  assumes ok: "world_ok w"
    and hit: "fst (ImageCache_get K t_get (overhead_cache w) lat lng [(''zoom'', VInt zoom), (''map_type'', VStr map_type)]) = Some r"
  shows "cached_get_overhead_view K V t_get t_set w lat lng zoom map_type =
      (Inr r, w\<lparr>overhead_cache := (overhead_cache w)\<lparr>hits := hits (overhead_cache w) + 1\<rparr>,
                heap := (heap w)[r := AList.update ''from_cache'' (VBool True) (heap w ! r)]\<rparr>)"
proof -
  let ?kw = "[(''zoom'', VInt zoom), (''map_type'', VStr map_type)]"
  from ok have "list_all (payload_ok (heap w)) (cache (overhead_cache w))" by (simp add: world_ok_def)
  from hit_payload [OF this hit] have ne: "heap w ! r \<noteq> []" by simp
  from get_hit_entry [OF hit] have s: "snd (ImageCache_get K t_get (overhead_cache w) lat lng ?kw)
      = (overhead_cache w)\<lparr>hits := hits (overhead_cache w) + 1\<rparr>" by blast
  have g: "ImageCache_get K t_get (overhead_cache w) lat lng ?kw
      = (Some r, (overhead_cache w)\<lparr>hits := hits (overhead_cache w) + 1\<rparr>)"
    using hit s by (metis prod.collapse)
  show ?thesis
    by (simp add: cached_get_overhead_view_def g ne Let_def)
qed


lemma set_result:
  assumes "ImageCache_set K t c lat lng v kw = Inr c'" "cache_inv c"
    "list_all P (cache c)" "P (make_key K lat lng kw, (t, v))"
  shows "cache_inv c' \<and> max_size c' = max_size c \<and> list_all P (cache c')
     \<and> map_of (cache c') (make_key K lat lng kw) = Some (t, v)"
proof -
  from assms(1) obtain es where es: "evict_if_full c = Inr es"
    and c': "c' = c\<lparr>cache := AList.update (make_key K lat lng kw) (t, v) es\<rparr>"
    by (auto simp: ImageCache_set_def Let_def split: sum.splits)
  from es have "es = cache c \<or> (\<exists>k. es = AList.delete k (cache c))"
    by (auto simp: evict_if_full_def split: if_splits sum.splits)
  with assms(3) have "list_all P es" by (auto simp: list_all_delete)
  with assms(4) have "list_all P (cache c')" by (simp add: c' list_all_update)
  moreover have "cache_inv c'" using assms(1,2) by (rule set_preserves_inv [rotated])
  moreover have "max_size c' = max_size c" by (simp add: c')
  moreover have "map_of (cache c') (make_key K lat lng kw) = Some (t, v)"
    by (simp add: c' update_conv)
  ultimately show ?thesis by simp
qed

lemma overhead_miss:
  assumes miss: "fst (ImageCache_get K t_get (overhead_cache w) lat lng [(''zoom'', VInt zoom), (''map_type'', VStr map_type)]) = None"
  shows "cached_get_overhead_view K V t_get t_set w lat lng zoom map_type =
     (case get_overhead_view V lat lng zoom map_type True of
        Inl e \<Rightarrow>
          (Inl e, w\<lparr>overhead_cache := snd (ImageCache_get K t_get (overhead_cache w) lat lng
                                            [(''zoom'', VInt zoom), (''map_type'', VStr map_type)]),
                    fetch_log := fetch_log w @ [OverheadCall lat lng zoom map_type]\<rparr>)
      | Inr d \<Rightarrow>
          if truthy (dict_get d ''success'')
          then (case ImageCache_set K t_set
                       (snd (ImageCache_get K t_get (overhead_cache w) lat lng
                               [(''zoom'', VInt zoom), (''map_type'', VStr map_type)]))
                       lat lng (length (heap w)) [(''zoom'', VInt zoom), (''map_type'', VStr map_type)] of
                  Inl e \<Rightarrow>
                    (Inl e, w\<lparr>overhead_cache := snd (ImageCache_get K t_get (overhead_cache w) lat lng
                                            [(''zoom'', VInt zoom), (''map_type'', VStr map_type)]),
                              heap := heap w @ [d],
                              fetch_log := fetch_log w @ [OverheadCall lat lng zoom map_type]\<rparr>)
                | Inr c' \<Rightarrow>
                    (Inr (length (heap w)),
                     w\<lparr>overhead_cache := c', heap := heap w @ [d],
                       fetch_log := fetch_log w @ [OverheadCall lat lng zoom map_type]\<rparr>))
          else (Inr (length (heap w)),
                w\<lparr>overhead_cache := snd (ImageCache_get K t_get (overhead_cache w) lat lng
                                            [(''zoom'', VInt zoom), (''map_type'', VStr map_type)]),
                  heap := heap w @ [d],
                  fetch_log := fetch_log w @ [OverheadCall lat lng zoom map_type]\<rparr>))"
proof -
  let ?kw = "[(''zoom'', VInt zoom), (''map_type'', VStr map_type)]"
  obtain oc1 where g: "ImageCache_get K t_get (overhead_cache w) lat lng ?kw = (None, oc1)"
    using miss by (metis prod.collapse)
  show ?thesis
    by (simp add: cached_get_overhead_view_def g Let_def split: sum.splits)
qed

lemma street_hit:
  assumes ok: "world_ok w"
    and hit: "fst (ImageCache_get K t_get (streetview_cache w) lat lng [(''heading'', VInt heading), (''pitch'', VInt pitch), (''fov'', VInt fov)]) = Some r"
  shows "cached_get_street_view K V t_get t_set w lat lng heading pitch fov =
      (Inr r, w\<lparr>streetview_cache := (streetview_cache w)\<lparr>hits := hits (streetview_cache w) + 1\<rparr>,
                heap := (heap w)[r := AList.update ''from_cache'' (VBool True) (heap w ! r)]\<rparr>)"
proof -
  let ?kw = "[(''heading'', VInt heading), (''pitch'', VInt pitch), (''fov'', VInt fov)]"
  from ok have "list_all (payload_ok (heap w)) (cache (streetview_cache w))" by (simp add: world_ok_def)
  from hit_payload [OF this hit] have ne: "heap w ! r \<noteq> []" by simp
  from get_hit_entry [OF hit] have s: "snd (ImageCache_get K t_get (streetview_cache w) lat lng ?kw)
      = (streetview_cache w)\<lparr>hits := hits (streetview_cache w) + 1\<rparr>" by blast
  have g: "ImageCache_get K t_get (streetview_cache w) lat lng ?kw
      = (Some r, (streetview_cache w)\<lparr>hits := hits (streetview_cache w) + 1\<rparr>)"
    using hit s by (metis prod.collapse)
  show ?thesis
    by (simp add: cached_get_street_view_def g ne Let_def)
qed


lemma street_miss:
  assumes miss: "fst (ImageCache_get K t_get (streetview_cache w) lat lng [(''heading'', VInt heading), (''pitch'', VInt pitch), (''fov'', VInt fov)]) = None"
  shows "cached_get_street_view K V t_get t_set w lat lng heading pitch fov =
     (case get_street_view V lat lng heading pitch fov True of
        Inl e \<Rightarrow>
          (Inl e, w\<lparr>streetview_cache := snd (ImageCache_get K t_get (streetview_cache w) lat lng
                                            [(''heading'', VInt heading), (''pitch'', VInt pitch), (''fov'', VInt fov)]),
                    fetch_log := fetch_log w @ [StreetCall lat lng heading pitch fov]\<rparr>)
      | Inr d \<Rightarrow>
          if truthy (dict_get d ''success'')
          then (case ImageCache_set K t_set
                       (snd (ImageCache_get K t_get (streetview_cache w) lat lng
                               [(''heading'', VInt heading), (''pitch'', VInt pitch), (''fov'', VInt fov)]))
                       lat lng (length (heap w)) [(''heading'', VInt heading), (''pitch'', VInt pitch), (''fov'', VInt fov)] of
                  Inl e \<Rightarrow>
                    (Inl e, w\<lparr>streetview_cache := snd (ImageCache_get K t_get (streetview_cache w) lat lng
                                            [(''heading'', VInt heading), (''pitch'', VInt pitch), (''fov'', VInt fov)]),
                              heap := heap w @ [d],
                              fetch_log := fetch_log w @ [StreetCall lat lng heading pitch fov]\<rparr>)
                | Inr c' \<Rightarrow>
                    (Inr (length (heap w)),
                     w\<lparr>streetview_cache := c', heap := heap w @ [d],
                       fetch_log := fetch_log w @ [StreetCall lat lng heading pitch fov]\<rparr>))
          else (Inr (length (heap w)),
                w\<lparr>streetview_cache := snd (ImageCache_get K t_get (streetview_cache w) lat lng
                                            [(''heading'', VInt heading), (''pitch'', VInt pitch), (''fov'', VInt fov)]),
                  heap := heap w @ [d],
                  fetch_log := fetch_log w @ [StreetCall lat lng heading pitch fov]\<rparr>))"
proof -
  let ?kw = "[(''heading'', VInt heading), (''pitch'', VInt pitch), (''fov'', VInt fov)]"
  obtain sc1 where g: "ImageCache_get K t_get (streetview_cache w) lat lng ?kw = (None, sc1)"
    using miss by (metis prod.collapse)
  show ?thesis
    by (simp add: cached_get_street_view_def g Let_def split: sum.splits)
qed


lemma overhead_wrapper:
  assumes ok: "world_ok w"
    and run: "cached_get_overhead_view K V t_get t_set w lat lng zoom map_type = (res, w')"
  shows "(\<forall>r. fst (ImageCache_get K t_get (overhead_cache w) lat lng
                 [(''zoom'', VInt zoom), (''map_type'', VStr map_type)]) = Some r \<longrightarrow>
        res = Inr r
        \<and> heap w' = (heap w)[r := AList.update ''from_cache'' (VBool True) (heap w ! r)]
        \<and> map_of (heap w' ! r) ''from_cache'' = Some (VBool True)
        \<and> fetch_log w' = fetch_log w)
   \<and> (fst (ImageCache_get K t_get (overhead_cache w) lat lng
                 [(''zoom'', VInt zoom), (''map_type'', VStr map_type)]) = None \<longrightarrow>
        fetch_log w' = fetch_log w @ [OverheadCall lat lng zoom map_type]
        \<and> (leg_ok (get_overhead_view V lat lng zoom map_type True) \<longrightarrow>
              res = Inr (length (heap w))
              \<and> get_overhead_view V lat lng zoom map_type True = Inr (heap w' ! length (heap w))
              \<and> map_of (cache (overhead_cache w'))
                    (make_key K lat lng [(''zoom'', VInt zoom), (''map_type'', VStr map_type)])
                  = Some (t_set, length (heap w)))
        \<and> (\<not> leg_ok (get_overhead_view V lat lng zoom map_type True) \<longrightarrow>
              cache (overhead_cache w')
                = cache (snd (ImageCache_get K t_get (overhead_cache w) lat lng
                                [(''zoom'', VInt zoom), (''map_type'', VStr map_type)]))
              \<and> (case get_overhead_view V lat lng zoom map_type True of
                     Inl e \<Rightarrow> res = Inl e \<and> heap w' = heap w
                   | Inr d \<Rightarrow> res = Inr (length (heap w)) \<and> heap w' = heap w @ [d])))
   \<and> streetview_cache w' = streetview_cache w
   \<and> world_ok w'"
proof -
  let ?kw = "[(''zoom'', VInt zoom), (''map_type'', VStr map_type)]"
  let ?g = "ImageCache_get K t_get (overhead_cache w) lat lng ?kw"
  let ?d = "get_overhead_view V lat lng zoom map_type True"
  from ok have inv: "cache_inv (overhead_cache w)" and mx: "1 \<le> max_size (overhead_cache w)"
    and po: "list_all (payload_ok (heap w)) (cache (overhead_cache w))"
    and ps: "list_all (payload_ok (heap w)) (cache (streetview_cache w))"
    and rest: "cache_inv (streetview_cache w)" "1 \<le> max_size (streetview_cache w)"
    by (simp_all add: world_ok_def)
  show ?thesis
  proof (cases "fst ?g")
    case (Some r)
    from hit_payload [OF po Some] have r: "r < length (heap w)" by simp
    from overhead_hit [OF ok Some, of V t_set] run
    have res: "res = Inr r"
      and w': "w' = w\<lparr>overhead_cache := (overhead_cache w)\<lparr>hits := hits (overhead_cache w) + 1\<rparr>,
                heap := (heap w)[r := AList.update ''from_cache'' (VBool True) (heap w ! r)]\<rparr>"
      by simp_all
    have "world_ok w'"
      using inv mx rest
        entries_mark [OF po, of r "VBool True"]
        entries_mark [OF ps, of r "VBool True"]
      by (simp add: w' world_ok_def cache_inv_def)
    then show ?thesis using Some r by (simp add: res w' update_conv)
  next
    case None
    have inv1: "cache_inv (snd ?g)" using inv by (rule get_preserves_inv)
    have mx1: "max_size (snd ?g) = max_size (overhead_cache w)" by (rule get_miss_max)
    have po1: "list_all (payload_ok (heap w)) (cache (snd ?g))" using po by (rule get_entries)
    note eq = overhead_miss [OF None, of V t_set]
    show ?thesis
    proof (cases ?d)
      case (Inl e)
      with eq run have res: "res = Inl e"
        and w': "w' = w\<lparr>overhead_cache := snd ?g,
                    fetch_log := fetch_log w @ [OverheadCall lat lng zoom map_type]\<rparr>"
        by simp_all
      have "world_ok w'"
        using inv1 mx mx1 rest po1 ps by (simp add: w' world_ok_def)
      then show ?thesis using None Inl by (simp add: res w')
    next
      case (Inr d)
      show ?thesis
      proof (cases "truthy (dict_get d ''success'')")
        case False
        with eq run Inr have res: "res = Inr (length (heap w))"
          and w': "w' = w\<lparr>overhead_cache := snd ?g, heap := heap w @ [d],
                    fetch_log := fetch_log w @ [OverheadCall lat lng zoom map_type]\<rparr>"
          by simp_all
        have "world_ok w'"
          using inv1 mx mx1 rest
            entries_append [OF po1, of d]
            entries_append [OF ps, of d]
          by (simp add: w' world_ok_def)
        then show ?thesis using None Inr False by (simp add: res w')
      next
        case True
        from set_succeeds [OF inv1, of K t_set lat lng "length (heap w)" ?kw] mx mx1
        obtain c' where st: "ImageCache_set K t_set (snd ?g) lat lng (length (heap w)) ?kw = Inr c'"
          by auto
        with eq run Inr True have res: "res = Inr (length (heap w))"
          and w': "w' = w\<lparr>overhead_cache := c', heap := heap w @ [d],
                    fetch_log := fetch_log w @ [OverheadCall lat lng zoom map_type]\<rparr>"
          by simp_all
        have new: "payload_ok (heap w @ [d]) (make_key K lat lng ?kw, (t_set, length (heap w)))"
          using True by (simp add: payload_ok_def)
        from set_result [OF st inv1 entries_append [OF po1, of d] new]
        have c': "cache_inv c'" "max_size c' = max_size (snd ?g)"
          "list_all (payload_ok (heap w @ [d])) (cache c')"
          "map_of (cache c') (make_key K lat lng ?kw) = Some (t_set, length (heap w))"
          by simp_all
        have "world_ok w'"
          using c' mx mx1 rest entries_append [OF ps, of d]
          by (simp add: w' world_ok_def)
        then show ?thesis using None Inr True c'(4) by (simp add: res w')
      qed
    qed
  qed
qed

lemma street_wrapper:
  assumes ok: "world_ok w"
    and run: "cached_get_street_view K V t_get t_set w lat lng heading pitch fov = (rs, ws)"
  shows "(\<forall>r. fst (ImageCache_get K t_get (streetview_cache w) lat lng
                 [(''heading'', VInt heading), (''pitch'', VInt pitch), (''fov'', VInt fov)]) = Some r \<longrightarrow>
        rs = Inr r
        \<and> heap ws = (heap w)[r := AList.update ''from_cache'' (VBool True) (heap w ! r)]
        \<and> map_of (heap ws ! r) ''from_cache'' = Some (VBool True)
        \<and> fetch_log ws = fetch_log w)
   \<and> (fst (ImageCache_get K t_get (streetview_cache w) lat lng
                 [(''heading'', VInt heading), (''pitch'', VInt pitch), (''fov'', VInt fov)]) = None \<longrightarrow>
        fetch_log ws = fetch_log w @ [StreetCall lat lng heading pitch fov]
        \<and> (leg_ok (get_street_view V lat lng heading pitch fov True) \<longrightarrow>
              rs = Inr (length (heap w))
              \<and> get_street_view V lat lng heading pitch fov True = Inr (heap ws ! length (heap w))
              \<and> map_of (cache (streetview_cache ws))
                    (make_key K lat lng [(''heading'', VInt heading), (''pitch'', VInt pitch), (''fov'', VInt fov)])
                  = Some (t_set, length (heap w)))
        \<and> (\<not> leg_ok (get_street_view V lat lng heading pitch fov True) \<longrightarrow>
              cache (streetview_cache ws)
                = cache (snd (ImageCache_get K t_get (streetview_cache w) lat lng
                                [(''heading'', VInt heading), (''pitch'', VInt pitch), (''fov'', VInt fov)]))
              \<and> (case get_street_view V lat lng heading pitch fov True of
                     Inl e \<Rightarrow> rs = Inl e \<and> heap ws = heap w
                   | Inr d \<Rightarrow> rs = Inr (length (heap w)) \<and> heap ws = heap w @ [d])))
   \<and> overhead_cache ws = overhead_cache w
   \<and> world_ok ws"
proof -
  let ?kw = "[(''heading'', VInt heading), (''pitch'', VInt pitch), (''fov'', VInt fov)]"
  let ?g = "ImageCache_get K t_get (streetview_cache w) lat lng ?kw"
  let ?d = "get_street_view V lat lng heading pitch fov True"
  from ok have inv: "cache_inv (streetview_cache w)" and mx: "1 \<le> max_size (streetview_cache w)"
    and po: "list_all (payload_ok (heap w)) (cache (streetview_cache w))"
    and ps: "list_all (payload_ok (heap w)) (cache (overhead_cache w))"
    and rest: "cache_inv (overhead_cache w)" "1 \<le> max_size (overhead_cache w)"
    by (simp_all add: world_ok_def)
  show ?thesis
  proof (cases "fst ?g")
    case (Some r)
    from hit_payload [OF po Some] have r: "r < length (heap w)" by simp
    from street_hit [OF ok Some, of V t_set] run
    have rs: "rs = Inr r"
      and ws: "ws = w\<lparr>streetview_cache := (streetview_cache w)\<lparr>hits := hits (streetview_cache w) + 1\<rparr>,
                heap := (heap w)[r := AList.update ''from_cache'' (VBool True) (heap w ! r)]\<rparr>"
      by simp_all
    have "world_ok ws"
      using inv mx rest
        entries_mark [OF po, of r "VBool True"]
        entries_mark [OF ps, of r "VBool True"]
      by (simp add: ws world_ok_def cache_inv_def)
    then show ?thesis using Some r by (simp add: rs ws update_conv)
  next
    case None
    have inv1: "cache_inv (snd ?g)" using inv by (rule get_preserves_inv)
    have mx1: "max_size (snd ?g) = max_size (streetview_cache w)" by (rule get_miss_max)
    have po1: "list_all (payload_ok (heap w)) (cache (snd ?g))" using po by (rule get_entries)
    note eq = street_miss [OF None, of V t_set]
    show ?thesis
    proof (cases ?d)
      case (Inl e)
      with eq run have rs: "rs = Inl e"
        and ws: "ws = w\<lparr>streetview_cache := snd ?g,
                    fetch_log := fetch_log w @ [StreetCall lat lng heading pitch fov]\<rparr>"
        by simp_all
      have "world_ok ws"
        using inv1 mx mx1 rest po1 ps by (simp add: ws world_ok_def)
      then show ?thesis using None Inl by (simp add: rs ws)
    next
      case (Inr d)
      show ?thesis
      proof (cases "truthy (dict_get d ''success'')")
        case False
        with eq run Inr have rs: "rs = Inr (length (heap w))"
          and ws: "ws = w\<lparr>streetview_cache := snd ?g, heap := heap w @ [d],
                    fetch_log := fetch_log w @ [StreetCall lat lng heading pitch fov]\<rparr>"
          by simp_all
        have "world_ok ws"
          using inv1 mx mx1 rest
            entries_append [OF po1, of d]
            entries_append [OF ps, of d]
          by (simp add: ws world_ok_def)
        then show ?thesis using None Inr False by (simp add: rs ws)
      next
        case True
        from set_succeeds [OF inv1, of K t_set lat lng "length (heap w)" ?kw] mx mx1
        obtain c' where st: "ImageCache_set K t_set (snd ?g) lat lng (length (heap w)) ?kw = Inr c'"
          by auto
        with eq run Inr True have rs: "rs = Inr (length (heap w))"
          and ws: "ws = w\<lparr>streetview_cache := c', heap := heap w @ [d],
                    fetch_log := fetch_log w @ [StreetCall lat lng heading pitch fov]\<rparr>"
          by simp_all
        have new: "payload_ok (heap w @ [d]) (make_key K lat lng ?kw, (t_set, length (heap w)))"
          using True by (simp add: payload_ok_def)
        from set_result [OF st inv1 entries_append [OF po1, of d] new]
        have c': "cache_inv c'" "max_size c' = max_size (snd ?g)"
          "list_all (payload_ok (heap w @ [d])) (cache c')"
          "map_of (cache c') (make_key K lat lng ?kw) = Some (t_set, length (heap w))"
          by simp_all
        have "world_ok ws"
          using c' mx mx1 rest entries_append [OF ps, of d]
          by (simp add: ws world_ok_def)
        then show ?thesis using None Inr True c'(4) by (simp add: rs ws)
      qed
    qed
  qed
qed



lemma init_world_ok: "world_ok init_world"
  by (simp add: world_ok_def init_world_def cache_inv_def ImageCache_init_def set_name_def)

lemma apply_call_ok: "world_ok w \<Longrightarrow> world_ok (apply_call K w c)"
proof (cases c)
  case (CallOverhead V t_get t_set lat lng zoom map_type)
  assume "world_ok w"
  from overhead_wrapper [OF this, of K V t_get t_set lat lng zoom map_type] CallOverhead
  show ?thesis by (metis apply_call.simps(1) prod.collapse)
next
  case (CallStreet V t_get t_set lat lng heading pitch fov)
  assume "world_ok w"
  from street_wrapper [OF this, of K V t_get t_set lat lng heading pitch fov] CallStreet
  show ?thesis by (metis apply_call.simps(2) prod.collapse)
next
  case CallClearAll
  assume "world_ok w"
  then show ?thesis
    by (simp add: CallClearAll clear_all_caches_def ImageCache_clear_def world_ok_def cache_inv_def)
qed

lemma run_calls_ok: "world_ok w \<Longrightarrow> world_ok (run_calls K w cs)"
  by (induction cs arbitrary: w) (simp_all add: apply_call_ok)

lemma reachable_ok: "world_ok (run_calls K init_world cs)"
  using init_world_ok by (rule run_calls_ok)

lemma get_ignores_hits:
  "fst (ImageCache_get K t (c\<lparr>hits := h\<rparr>) lat lng kw) = fst (ImageCache_get K t c lat lng kw)"
  by (simp add: ImageCache_get_def Let_def split: option.splits)

lemma overhead_plain:
  "get_overhead_view plain_env 0 0 18 ''satellite'' True = Inr satellite_payload"
  "get_overhead_view east_down_env 0 0 18 ''satellite'' True = Inr satellite_payload"
  by (simp_all add: get_overhead_view_def get_maps_api_key_def east_down_env_def plain_env_def
        fetch_with_retry_unfold fetch_once_def satellite_payload_def str_int_def str_nat.simps Let_def)

lemma street_east_down:
  "get_street_view east_down_env 0 0 90 0 90 True
     = Inr [(''success'', VBool False), (''error'', VStr ''unreachable'')]"
  by (simp add: get_street_view_def get_maps_api_key_def east_down_env_def plain_env_def
        street_view_params_def fetch_with_retry_unfold fetch_once_def retry_if_transient_def
        str_exn_def Let_def)

lemma first_fetch:
  "cached_get_overhead_view plain_key_env plain_env 0 1 init_world 0 0 18 ''satellite''
     = (Inr 0, world_after_fetch)"
  "cached_get_overhead_view plain_key_env east_down_env 0 1 init_world 0 0 18 ''satellite''
     = (Inr 0, world_after_fetch)"
  by (simp_all add: cached_get_overhead_view_def overhead_plain world_after_fetch_def init_world_def
        ImageCache_get_def ImageCache_set_def evict_if_full_def ImageCache_init_def set_name_def
        make_key_def plain_key_env_def satellite_payload_def dict_get_def Let_def)

lemma second_hit:
  "cached_get_overhead_view plain_key_env plain_env 2 3 world_after_fetch 0 0 18 ''satellite''
     = (Inr 0, world_after_fetch
          \<lparr>overhead_cache := (overhead_cache world_after_fetch)\<lparr>hits := 1\<rparr>,
           heap := [satellite_payload @ [(''from_cache'', VBool True)]]\<rparr>)"
  "cached_get_overhead_view plain_key_env east_down_env 2 3 world_after_fetch 0 0 18 ''satellite''
     = (Inr 0, world_after_fetch
          \<lparr>overhead_cache := (overhead_cache world_after_fetch)\<lparr>hits := 1\<rparr>,
           heap := [satellite_payload @ [(''from_cache'', VBool True)]]\<rparr>)"
  by (simp_all add: cached_get_overhead_view_def world_after_fetch_def init_world_def
        ImageCache_get_def ImageCache_init_def set_name_def
        make_key_def plain_key_env_def satellite_payload_def Let_def)

lemma street_fail:
  "cached_get_street_view plain_key_env east_down_env 0 1 init_world 0 0 90 0 90
     = (Inr 0, init_world
          \<lparr>streetview_cache := (streetview_cache init_world)\<lparr>misses := 1\<rparr>,
           heap := [[(''success'', VBool False), (''error'', VStr ''unreachable'')]],
           fetch_log := [StreetCall 0 0 90 0 90]\<rparr>)"
  "cached_get_street_view plain_key_env east_down_env 2 3 world_after_fetch 0 0 90 0 90
     = (Inr 1, world_after_fetch
          \<lparr>streetview_cache := (streetview_cache world_after_fetch)\<lparr>misses := 1\<rparr>,
           heap := [satellite_payload, [(''success'', VBool False), (''error'', VStr ''unreachable'')]],
           fetch_log := [OverheadCall 0 0 18 ''satellite'', StreetCall 0 0 90 0 90]\<rparr>)"
  by (simp_all add: cached_get_street_view_def street_east_down world_after_fetch_def init_world_def
        ImageCache_get_def ImageCache_init_def set_name_def
        make_key_def plain_key_env_def dict_get_def Let_def)

text \<open>
  C3. In every state the module can reach from its initial state by calls of the wrappers
  and of \<open>clear_all_caches\<close>, for both wrappers: when the cache's
  \<open>get\<close> is a hit, the wrapper returns the stored dict, now carrying
  \<open>from_cache = True\<close>, and calls no fetching function; when it is a miss, the wrapper
  calls the fetching function once, and the result is written into the cache under the
  key of the call exactly when the fetch succeeded: after a failed fetch, or one that
  raised, the cache holds what it held after the \<open>get\<close>. Every cached dict is a
  successful one, before and after the call.
\<close>

theorem cached_views_cache_only_success:
  assumes reach: "w = run_calls K init_world calls"
    and run_o: "cached_get_overhead_view K V t_get t_set w lat lng zoom map_type = (res, w')"
    and run_s: "cached_get_street_view K V t_get t_set w lat lng heading pitch fov = (rs, ws)"
  shows "((\<forall>r. fst (ImageCache_get K t_get (overhead_cache w) lat lng
                 [(''zoom'', VInt zoom), (''map_type'', VStr map_type)]) = Some r \<longrightarrow>
        res = Inr r
        \<and> heap w' = (heap w)[r := AList.update ''from_cache'' (VBool True) (heap w ! r)]
        \<and> map_of (heap w' ! r) ''from_cache'' = Some (VBool True)
        \<and> fetch_log w' = fetch_log w)
   \<and> (fst (ImageCache_get K t_get (overhead_cache w) lat lng
                 [(''zoom'', VInt zoom), (''map_type'', VStr map_type)]) = None \<longrightarrow>
        fetch_log w' = fetch_log w @ [OverheadCall lat lng zoom map_type]
        \<and> (leg_ok (get_overhead_view V lat lng zoom map_type True) \<longrightarrow>
              res = Inr (length (heap w))
              \<and> get_overhead_view V lat lng zoom map_type True = Inr (heap w' ! length (heap w))
              \<and> map_of (cache (overhead_cache w'))
                    (make_key K lat lng [(''zoom'', VInt zoom), (''map_type'', VStr map_type)])
                  = Some (t_set, length (heap w)))
        \<and> (\<not> leg_ok (get_overhead_view V lat lng zoom map_type True) \<longrightarrow>
              cache (overhead_cache w')
                = cache (snd (ImageCache_get K t_get (overhead_cache w) lat lng
                                [(''zoom'', VInt zoom), (''map_type'', VStr map_type)]))
              \<and> (case get_overhead_view V lat lng zoom map_type True of
                     Inl e \<Rightarrow> res = Inl e \<and> heap w' = heap w
                   | Inr d \<Rightarrow> res = Inr (length (heap w)) \<and> heap w' = heap w @ [d])))
   \<and> streetview_cache w' = streetview_cache w
   \<and> world_ok w')
   \<and> ((\<forall>r. fst (ImageCache_get K t_get (streetview_cache w) lat lng
                 [(''heading'', VInt heading), (''pitch'', VInt pitch), (''fov'', VInt fov)]) = Some r \<longrightarrow>
        rs = Inr r
        \<and> heap ws = (heap w)[r := AList.update ''from_cache'' (VBool True) (heap w ! r)]
        \<and> map_of (heap ws ! r) ''from_cache'' = Some (VBool True)
        \<and> fetch_log ws = fetch_log w)
   \<and> (fst (ImageCache_get K t_get (streetview_cache w) lat lng
                 [(''heading'', VInt heading), (''pitch'', VInt pitch), (''fov'', VInt fov)]) = None \<longrightarrow>
        fetch_log ws = fetch_log w @ [StreetCall lat lng heading pitch fov]
        \<and> (leg_ok (get_street_view V lat lng heading pitch fov True) \<longrightarrow>
              rs = Inr (length (heap w))
              \<and> get_street_view V lat lng heading pitch fov True = Inr (heap ws ! length (heap w))
              \<and> map_of (cache (streetview_cache ws))
                    (make_key K lat lng [(''heading'', VInt heading), (''pitch'', VInt pitch), (''fov'', VInt fov)])
                  = Some (t_set, length (heap w)))
        \<and> (\<not> leg_ok (get_street_view V lat lng heading pitch fov True) \<longrightarrow>
              cache (streetview_cache ws)
                = cache (snd (ImageCache_get K t_get (streetview_cache w) lat lng
                                [(''heading'', VInt heading), (''pitch'', VInt pitch), (''fov'', VInt fov)]))
              \<and> (case get_street_view V lat lng heading pitch fov True of
                     Inl e \<Rightarrow> rs = Inl e \<and> heap ws = heap w
                   | Inr d \<Rightarrow> rs = Inr (length (heap w)) \<and> heap ws = heap w @ [d])))
   \<and> overhead_cache ws = overhead_cache w
   \<and> world_ok ws)"
proof -
  have ok: "world_ok w" unfolding reach by (rule reachable_ok)
  from overhead_wrapper [OF ok run_o] street_wrapper [OF ok run_s] show ?thesis
    by (rule conjI)
qed

theorem cached_views_cache_only_success_witness:
  "world_ok init_world
   \<and> cached_get_overhead_view plain_key_env east_down_env 0 1 init_world 0 0 18 ''satellite''
       = (Inr 0, world_after_fetch)
   \<and> cached_get_street_view plain_key_env east_down_env 0 1 init_world 0 0 90 0 90
       = (Inr 0, init_world
          \<lparr>streetview_cache := (streetview_cache init_world)\<lparr>misses := 1\<rparr>,
           heap := [[(''success'', VBool False), (''error'', VStr ''unreachable'')]],
           fetch_log := [StreetCall 0 0 90 0 90]\<rparr>)
   \<and> world_ok world_after_fetch
   \<and> cached_get_overhead_view plain_key_env east_down_env 2 3 world_after_fetch 0 0 18 ''satellite''
       = (Inr 0, world_after_fetch
          \<lparr>overhead_cache := (overhead_cache world_after_fetch)\<lparr>hits := 1\<rparr>,
           heap := [satellite_payload @ [(''from_cache'', VBool True)]]\<rparr>)
   \<and> fetch_log (world_after_fetch
          \<lparr>overhead_cache := (overhead_cache world_after_fetch)\<lparr>hits := 1\<rparr>,
           heap := [satellite_payload @ [(''from_cache'', VBool True)]]\<rparr>) = fetch_log world_after_fetch"
proof -
  have r0: "init_world = run_calls plain_key_env init_world []" by simp
  have r1: "world_after_fetch = run_calls plain_key_env init_world
      [CallOverhead east_down_env 0 1 0 0 18 ''satellite'']"
    by (simp add: first_fetch)
  note a = cached_views_cache_only_success [OF r0 first_fetch(2) street_fail(1)]
  then have ok1: "world_ok world_after_fetch" by simp
  note b = cached_views_cache_only_success [OF r1 second_hit(2) street_fail(2)]
  from init_world_ok first_fetch(2) street_fail(1) ok1 second_hit(2) b show ?thesis
    by simp
qed

text \<open>
  C7, as the code has it. The first call fetches and caches a payload without a
  \<open>from_cache\<close> field; the second call is a hit, and afterwards the dict the cache entry
  refers to carries \<open>from_cache = True\<close>: serving the hit modified the stored payload.
\<close>

theorem cached_hit_mutates_stored_payload:
  "heap (snd (cached_get_overhead_view plain_key_env plain_env 0 1 init_world 0 0 18 ''satellite'')) ! 0
     = satellite_payload
   \<and> map_of satellite_payload ''from_cache'' = None
   \<and> map_of (cache (overhead_cache
        (snd (cached_get_overhead_view plain_key_env plain_env 0 1 init_world 0 0 18 ''satellite''))))
        ''0.000000:0.000000:map_typezoom'' = Some (1, 0)
   \<and> heap (snd (cached_get_overhead_view plain_key_env plain_env 2 3
        (snd (cached_get_overhead_view plain_key_env plain_env 0 1 init_world 0 0 18 ''satellite''))
        0 0 18 ''satellite'')) ! 0
     = satellite_payload @ [(''from_cache'', VBool True)]
   \<and> map_of (cache (overhead_cache (snd (cached_get_overhead_view plain_key_env plain_env 2 3
        (snd (cached_get_overhead_view plain_key_env plain_env 0 1 init_world 0 0 18 ''satellite''))
        0 0 18 ''satellite''))))
        ''0.000000:0.000000:map_typezoom'' = Some (1, 0)"
  by (simp add: first_fetch second_hit) (simp add: world_after_fetch_def satellite_payload_def init_world_def)

text \<open>
  C7, amended. In every state the module can reach, serving a hit through either
  wrapper leaves the cache's entries (keys, timestamps and references) and the other
  cache as they were and changes the store at the served object only: the stored payload
  gains \<open>from_cache = True\<close> and keeps every other field. Later lookups of the same key
  return the same object, which now carries the mark.
\<close>

theorem cached_hit_marks_stored_payload:
  assumes reach: "w = run_calls K init_world calls"
    and run_o: "cached_get_overhead_view K V t_get t_set w lat lng zoom map_type = (res, w')"
    and run_s: "cached_get_street_view K V t_get t_set w lat lng heading pitch fov = (rs, ws)"
  shows "(\<forall>r. fst (ImageCache_get K t_get (overhead_cache w) lat lng
                 [(''zoom'', VInt zoom), (''map_type'', VStr map_type)]) = Some r \<longrightarrow>
        res = Inr r \<and> r < length (heap w)
        \<and> cache (overhead_cache w') = cache (overhead_cache w)
        \<and> streetview_cache w' = streetview_cache w
        \<and> heap w' = (heap w)[r := AList.update ''from_cache'' (VBool True) (heap w ! r)]
        \<and> map_of (heap w' ! r) = (map_of (heap w ! r))(''from_cache'' \<mapsto> VBool True)
        \<and> (\<forall>t. fst (ImageCache_get K t (overhead_cache w') lat lng
                          [(''zoom'', VInt zoom), (''map_type'', VStr map_type)])
                = fst (ImageCache_get K t (overhead_cache w) lat lng
                          [(''zoom'', VInt zoom), (''map_type'', VStr map_type)])))
   \<and> (\<forall>r. fst (ImageCache_get K t_get (streetview_cache w) lat lng
                 [(''heading'', VInt heading), (''pitch'', VInt pitch), (''fov'', VInt fov)]) = Some r \<longrightarrow>
        rs = Inr r \<and> r < length (heap w)
        \<and> cache (streetview_cache ws) = cache (streetview_cache w)
        \<and> overhead_cache ws = overhead_cache w
        \<and> heap ws = (heap w)[r := AList.update ''from_cache'' (VBool True) (heap w ! r)]
        \<and> map_of (heap ws ! r) = (map_of (heap w ! r))(''from_cache'' \<mapsto> VBool True)
        \<and> (\<forall>t. fst (ImageCache_get K t (streetview_cache ws) lat lng
                          [(''heading'', VInt heading), (''pitch'', VInt pitch), (''fov'', VInt fov)])
                = fst (ImageCache_get K t (streetview_cache w) lat lng
                          [(''heading'', VInt heading), (''pitch'', VInt pitch), (''fov'', VInt fov)])))"
proof -
  have ok: "world_ok w" unfolding reach by (rule reachable_ok)
  have o: "res = Inr r \<and> r < length (heap w)
        \<and> cache (overhead_cache w') = cache (overhead_cache w)
        \<and> streetview_cache w' = streetview_cache w
        \<and> heap w' = (heap w)[r := AList.update ''from_cache'' (VBool True) (heap w ! r)]
        \<and> map_of (heap w' ! r) = (map_of (heap w ! r))(''from_cache'' \<mapsto> VBool True)
        \<and> (\<forall>t. fst (ImageCache_get K t (overhead_cache w') lat lng
                          [(''zoom'', VInt zoom), (''map_type'', VStr map_type)])
                = fst (ImageCache_get K t (overhead_cache w) lat lng
                          [(''zoom'', VInt zoom), (''map_type'', VStr map_type)]))"
    if hit: "fst (ImageCache_get K t_get (overhead_cache w) lat lng
                 [(''zoom'', VInt zoom), (''map_type'', VStr map_type)]) = Some r" for r
  proof -
    from ok have po: "list_all (payload_ok (heap w)) (cache (overhead_cache w))"
      by (simp add: world_ok_def)
    from hit_payload [OF po hit] have r: "r < length (heap w)" by simp
    from overhead_hit [OF ok hit, of V t_set] run_o
    have res: "res = Inr r"
      and w': "w' = w\<lparr>overhead_cache := (overhead_cache w)\<lparr>hits := hits (overhead_cache w) + 1\<rparr>,
                heap := (heap w)[r := AList.update ''from_cache'' (VBool True) (heap w ! r)]\<rparr>"
      by simp_all
    show ?thesis
      using r by (simp add: res w' update_conv' get_ignores_hits)
  qed
  have s: "rs = Inr r \<and> r < length (heap w)
        \<and> cache (streetview_cache ws) = cache (streetview_cache w)
        \<and> overhead_cache ws = overhead_cache w
        \<and> heap ws = (heap w)[r := AList.update ''from_cache'' (VBool True) (heap w ! r)]
        \<and> map_of (heap ws ! r) = (map_of (heap w ! r))(''from_cache'' \<mapsto> VBool True)
        \<and> (\<forall>t. fst (ImageCache_get K t (streetview_cache ws) lat lng
                          [(''heading'', VInt heading), (''pitch'', VInt pitch), (''fov'', VInt fov)])
                = fst (ImageCache_get K t (streetview_cache w) lat lng
                          [(''heading'', VInt heading), (''pitch'', VInt pitch), (''fov'', VInt fov)]))"
    if hit: "fst (ImageCache_get K t_get (streetview_cache w) lat lng
                 [(''heading'', VInt heading), (''pitch'', VInt pitch), (''fov'', VInt fov)]) = Some r" for r
  proof -
    from ok have po: "list_all (payload_ok (heap w)) (cache (streetview_cache w))"
      by (simp add: world_ok_def)
    from hit_payload [OF po hit] have r: "r < length (heap w)" by simp
    from street_hit [OF ok hit, of V t_set] run_s
    have rs: "rs = Inr r"
      and ws: "ws = w\<lparr>streetview_cache := (streetview_cache w)\<lparr>hits := hits (streetview_cache w) + 1\<rparr>,
                heap := (heap w)[r := AList.update ''from_cache'' (VBool True) (heap w ! r)]\<rparr>"
      by simp_all
    show ?thesis
      using r by (simp add: rs ws update_conv' get_ignores_hits)
  qed
  from o s show ?thesis by blast
qed

theorem cached_hit_marks_stored_payload_witness:
  "world_ok world_after_fetch
   \<and> fst (ImageCache_get plain_key_env 2 (overhead_cache world_after_fetch) 0 0
              [(''zoom'', VInt 18), (''map_type'', VStr ''satellite'')]) = Some 0
   \<and> cached_get_overhead_view plain_key_env east_down_env 2 3 world_after_fetch 0 0 18 ''satellite''
       = (Inr 0, world_after_fetch
          \<lparr>overhead_cache := (overhead_cache world_after_fetch)\<lparr>hits := 1\<rparr>,
           heap := [satellite_payload @ [(''from_cache'', VBool True)]]\<rparr>)
   \<and> map_of (satellite_payload @ [(''from_cache'', VBool True)])
       = (map_of satellite_payload)(''from_cache'' \<mapsto> VBool True)"
proof -
  have ok1: "world_ok world_after_fetch"
    by (simp add: world_ok_def world_after_fetch_def init_world_def cache_inv_def ImageCache_init_def
          set_name_def payload_ok_def satellite_payload_def dict_get_def)
  have hit: "fst (ImageCache_get plain_key_env 2 (overhead_cache world_after_fetch) 0 0
              [(''zoom'', VInt 18), (''map_type'', VStr ''satellite'')]) = Some 0"
    by (simp add: world_after_fetch_def init_world_def ImageCache_get_def ImageCache_init_def
          set_name_def make_key_def plain_key_env_def Let_def)
  have r1: "world_after_fetch = run_calls plain_key_env init_world
      [CallOverhead east_down_env 0 1 0 0 18 ''satellite'']"
    by (simp add: first_fetch)
  from cached_hit_marks_stored_payload [OF r1 second_hit(2) street_fail(2)] hit
  have "map_of (heap (world_after_fetch
          \<lparr>overhead_cache := (overhead_cache world_after_fetch)\<lparr>hits := 1\<rparr>,
           heap := [satellite_payload @ [(''from_cache'', VBool True)]]\<rparr>) ! 0)
       = (map_of (heap world_after_fetch ! 0))(''from_cache'' \<mapsto> VBool True)"
    by blast
  then have "map_of (satellite_payload @ [(''from_cache'', VBool True)])
       = (map_of satellite_payload)(''from_cache'' \<mapsto> VBool True)"
    by (simp add: world_after_fetch_def)
  with ok1 hit second_hit(2) show ?thesis by simp
qed

end
